theory Spec2Isabelle
  imports Complex_Main
begin

section \<open>Freshness classification\<close>

text \<open>
  A JavaScript \<open>Date\<close> is a time value: an integer count of milliseconds since the epoch.
  \<open>Date.prototype.setHours(0, 0, 0, 0)\<close> moves a time value back to the local midnight of
  its calendar day. The local zone is a parameter \<open>tz\<close>, the zone's offset from UTC in
  milliseconds (east positive), constant over the dates compared. The strings handed to
  \<open>new Date(expiryDate)\<close> are the ones \<open>toISOString\<close> wrote, so each stands for the time
  value it was made from.
\<close>

definition msPerDay :: int where
  "msPerDay = 1000 * 60 * 60 * 24"

definition localDay :: "int \<Rightarrow> int \<Rightarrow> int" where
  \<comment> \<open>number of the local calendar day of a time value, day 0 being 1970-01-01\<close>
  "localDay tz t = (t + tz) div msPerDay"

definition setHoursZero :: "int \<Rightarrow> int \<Rightarrow> int" where
  "setHoursZero tz t = t - (t + tz) mod msPerDay"

definition daysFromCivil :: "int \<Rightarrow> int \<Rightarrow> int \<Rightarrow> int" where
  \<comment> \<open>day number of the proleptic Gregorian date year-month-day\<close>
  "daysFromCivil y m d =
     (let y' = (if m \<le> 2 then y - 1 else y);
          era = y' div 400;
          yoe = y' - era * 400;
          doy = (153 * (if 2 < m then m - 3 else m + 9) + 2) div 5 + d - 1;
          doe = yoe * 365 + yoe div 4 - yoe div 100 + doy
      in era * 146097 + doe - 719468)"

datatype category = Urgent | Soon | Fresh

record expiry_status =
  label :: string
  category :: category
  daysLeft :: int
  color :: string
  shadow :: string

definition getExpiryStatus :: "int \<Rightarrow> int \<Rightarrow> int \<Rightarrow> expiry_status" where
  \<comment> \<open>\<open>now\<close> is the time value \<open>new Date()\<close> reads from the clock\<close>
  "getExpiryStatus tz now expiryDate =
     (let today = setHoursZero tz now;
          expiry = setHoursZero tz expiryDate;
          diffTime = expiry - today;
          dl = diffTime div msPerDay
      in if dl \<le> 2 then
           \<lparr>label = ''Urgent'', category = Urgent, daysLeft = dl,
            color = ''bg-orange-500'', shadow = ''shadow-orange-500/20''\<rparr>
         else if dl \<le> 5 then
           \<lparr>label = ''Soon'', category = Soon, daysLeft = dl,
            color = ''bg-amber-400'', shadow = ''shadow-amber-400/20''\<rparr>
         else
           \<lparr>label = ''Fresh'', category = Fresh, daysLeft = dl,
            color = ''bg-emerald-500'', shadow = ''shadow-emerald-500/20''\<rparr>)"


section \<open>Inventory items as the program writes them\<close>

text \<open>
  \<open>FoodItem\<close> of \<open>services/geminiService.ts\<close>. The field \<open>expiry_date\<close> holds the
  time value whose ISO string the program stores; \<open>id\<close> is given by the database.
\<close>

datatype status = fresh | warning | expired

datatype js_error = TypeError | RangeError

record FoodItem =
  name :: string
  item_category :: string
  expiry_date :: int
  item_status :: status
  image_url :: "string option"

record food =
  food_name :: string
  shelfLife :: int

definition setDatePlus :: "int \<Rightarrow> int \<Rightarrow> int \<Rightarrow> int" where
  \<comment> \<open>\<open>d.setDate(d.getDate() + n)\<close> for a whole number \<open>n\<close>: the same local time of day
      \<open>n\<close> calendar days on. \<open>shift\<close> is the change of the zone's UTC offset between the
      two dates (0 when there is none, 3600000 across the start of summer time).\<close>
  "setDatePlus shift t n = t + n * msPerDay - shift"

definition handleManualAdd :: "int \<Rightarrow> int \<Rightarrow> string option \<Rightarrow> food \<Rightarrow> FoodItem" where
  \<comment> \<open>the item handed to \<open>addItem\<close>; \<open>selectedCategory?.name || 'Other'\<close>, which is
      \<open>'Otros'\<close> in the Spanish version of the component. The shelf lives are the whole
      numbers of \<open>FOOD_CATEGORIES\<close>.\<close>
  "handleManualAdd shift now selectedCategory f =
     \<lparr>name = food_name f,
      item_category = (case selectedCategory of
                         None \<Rightarrow> ''Other''
                       | Some c \<Rightarrow> if c = [] then ''Other'' else c),
      expiry_date = setDatePlus shift now (shelfLife f),
      item_status = (if 3 < shelfLife f then fresh else warning),
      image_url = None\<rparr>"

text \<open>
  \<open>analyzeFoodImage\<close> reads \<open>estimated_days_left\<close> from the parsed reply: any JSON number,
  whole or not (the double it parses to, taken as the rational number it is), an infinity
  when the literal is too large for a double, or nothing at all when the reply lacks the
  field (\<open>undefined\<close>). The code compares it with 2 and with 0,
  comparisons that are false on \<open>undefined\<close>, and hands it to the date arithmetic of the
  runtime, \<open>expiryDate.setDate(expiryDate.getDate() + n)\<close>, which truncates a fraction and
  makes the date invalid when the number is missing or not finite or the date leaves the
  range of time values. That arithmetic is the parameter \<open>setDate\<close>: from the clock
  reading and the number to the new time value, \<open>None\<close> for an invalid date, on which
  \<open>toISOString\<close> throws a \<open>RangeError\<close>.
\<close>

datatype js_number = Finite rat | PosInfinity | NegInfinity | Missing

definition lessEq :: "js_number \<Rightarrow> int \<Rightarrow> bool" where
  \<comment> \<open>\<open>n <= c\<close>\<close>
  "lessEq n c =
     (case n of
        Finite q \<Rightarrow> q \<le> of_int c
      | PosInfinity \<Rightarrow> False
      | NegInfinity \<Rightarrow> True
      | Missing \<Rightarrow> False)"

record analysis =
  \<comment> \<open>the JSON object the model answers with\<close>
  a_name :: string
  a_category :: string
  estimated_days_left :: js_number

definition analyzeFoodImage ::
  "(int \<Rightarrow> js_number \<Rightarrow> int option) \<Rightarrow> int \<Rightarrow> analysis \<Rightarrow> js_error + FoodItem" where
  "analyzeFoodImage setDate now r =
     (let expiryDate = setDate now (estimated_days_left r);
          st = fresh;
          st = (if lessEq (estimated_days_left r) 2 then warning else st);
          st = (if lessEq (estimated_days_left r) 0 then expired else st)
      in case expiryDate of
           None \<Rightarrow> Inl RangeError
         | Some e \<Rightarrow>
             Inr \<lparr>name = a_name r, item_category = a_category r, expiry_date = e,
                  item_status = st, image_url = None\<rparr>)"

section \<open>Category keys\<close>

text \<open>
  A JavaScript string is a sequence of UTF-16 code units, here natural numbers;
  \<open>utf16\<close> gives the units of an ASCII literal. The two accented aliases of
  \<open>CATEGORY_MAP\<close> are held in the source files as \<open>l\<close>, U+221A, U+00B0, \<open>cteos\<close> and
  \<open>prote\<close>, U+221A, U+2260, \<open>nas\<close>, and are entered so. \<open>toLowerCase\<close> is modelled on
  the units up to U+00FF, where it moves \<open>A\<close> to \<open>Z\<close> and U+00C0 to U+00DE (but U+00D7)
  32 up; every other unit is left as it is, which is what the runtime does with a unit
  that has no case, such as U+221A, U+00B0 and U+2260. \<open>CATEGORY_MAP\<close> is an object
  literal, so reading a property that is not its own goes on to \<open>Object.prototype\<close>,
  whose properties are functions or objects.
\<close>

type_synonym js_string = "nat list"

definition utf16 :: "string \<Rightarrow> js_string" where
  "utf16 s = map of_char s"

definition toLowerChar :: "nat \<Rightarrow> nat" where
  "toLowerChar n =
     (if (65 \<le> n \<and> n \<le> 90) \<or> (192 \<le> n \<and> n \<le> 222 \<and> n \<noteq> 215) then n + 32 else n)"

definition toLowerCase :: "js_string \<Rightarrow> js_string" where
  "toLowerCase s = map toLowerChar s"

datatype js_value = Str js_string | Undefined | Inherited js_string

definition truthy :: "js_value \<Rightarrow> bool" where
  "truthy v = (case v of Str s \<Rightarrow> s \<noteq> [] | Undefined \<Rightarrow> False | Inherited _ \<Rightarrow> True)"

definition objectPrototype :: "js_string list" where
  "objectPrototype =
     map utf16
       [''constructor'', ''__defineGetter__'', ''__defineSetter__'', ''hasOwnProperty'',
        ''__lookupGetter__'', ''__lookupSetter__'', ''isPrototypeOf'',
        ''propertyIsEnumerable'', ''toString'', ''valueOf'', ''__proto__'',
        ''toLocaleString'']"

definition getProperty :: "(js_string \<times> js_string) list \<Rightarrow> js_string \<Rightarrow> js_value" where
  "getProperty obj k =
     (case map_of obj k of
        Some v \<Rightarrow> Str v
      | None \<Rightarrow> if k \<in> set objectPrototype then Inherited k else Undefined)"

definition CATEGORY_MAP :: "(js_string \<times> js_string) list" where
  \<comment> \<open>\<open>src/App.tsx\<close>\<close>
  "CATEGORY_MAP =
     [(utf16 ''granos'', utf16 ''granos''),
      (utf16 ''verduras'', utf16 ''verduras''),
      (utf16 ''frutas'', utf16 ''frutas''),
      (utf16 ''l'' @ [0x221A, 0xB0] @ utf16 ''cteos'', utf16 ''lacteos''),
      (utf16 ''lacteos'', utf16 ''lacteos''),
      (utf16 ''prote'' @ [0x221A, 0x2260] @ utf16 ''nas'', utf16 ''proteinas''),
      (utf16 ''proteinas'', utf16 ''proteinas''),
      (utf16 ''dairy'', utf16 ''lacteos''),
      (utf16 ''meat'', utf16 ''proteinas''),
      (utf16 ''vegetables'', utf16 ''verduras''),
      (utf16 ''fruit'', utf16 ''frutas''),
      (utf16 ''pantry'', utf16 ''granos'')]"

definition CATEGORY_MAP_en :: "(js_string \<times> js_string) list" where
  \<comment> \<open>the table of the English version of the component\<close>
  "CATEGORY_MAP_en =
     [(utf16 ''grains'', utf16 ''granos''),
      (utf16 ''vegetables'', utf16 ''verduras''),
      (utf16 ''fruits'', utf16 ''frutas''),
      (utf16 ''dairy'', utf16 ''lacteos''),
      (utf16 ''proteins'', utf16 ''proteinas''),
      (utf16 ''granos'', utf16 ''granos''),
      (utf16 ''verduras'', utf16 ''verduras''),
      (utf16 ''frutas'', utf16 ''frutas''),
      (utf16 ''l'' @ [0x221A, 0xB0] @ utf16 ''cteos'', utf16 ''lacteos''),
      (utf16 ''lacteos'', utf16 ''lacteos''),
      (utf16 ''prote'' @ [0x221A, 0x2260] @ utf16 ''nas'', utf16 ''proteinas''),
      (utf16 ''proteinas'', utf16 ''proteinas''),
      (utf16 ''meat'', utf16 ''proteinas''),
      (utf16 ''fruit'', utf16 ''frutas''),
      (utf16 ''pantry'', utf16 ''granos'')]"

definition getCategoryKey :: "(js_string \<times> js_string) list \<Rightarrow> js_string \<Rightarrow> js_value" where
  \<comment> \<open>\<open>CATEGORY_MAP[cat.toLowerCase()] || cat.toLowerCase()\<close>\<close>
  "getCategoryKey table cat =
     (let v = getProperty table (toLowerCase cat)
      in if truthy v then v else Str (toLowerCase cat))"

definition getCategoryKeyTwice ::
  "(js_string \<times> js_string) list \<Rightarrow> js_string \<Rightarrow> js_error + js_value" where
  \<comment> \<open>\<open>getCategoryKey(getCategoryKey(cat))\<close>: a value that is no string has no
      \<open>toLowerCase\<close> to call\<close>
  "getCategoryKeyTwice table cat =
     (case getCategoryKey table cat of
        Str s \<Rightarrow> Inr (getCategoryKey table s)
      | _ \<Rightarrow> Inl TypeError)"

definition canonicalIds :: "js_string list" where
  "canonicalIds = map utf16 [''granos'', ''verduras'', ''frutas'', ''lacteos'', ''proteinas'']"

section \<open>Image generation with retries\<close>

text \<open>
  The provider is \<open>ai.models.generateContent\<close>. A call either rejects with an error
  object, of which the code reads \<open>error.error.code\<close> and \<open>error.status\<close>, or resolves with
  a response, of which the code reads the parts of the first candidate (absent when the
  response has no candidate, content or parts) and, of each part, its \<open>inlineData\<close>.
  The provider is given as the replies it makes, indexed by the calls in the order they
  are made, each with the time in milliseconds the call takes. The prompt has no part in
  what the code does with a reply and is left out.
\<close>

record api_error =
  error_code :: "int option"
  error_status :: "int option"

datatype response = Rejects api_error | Resolves "string option list option"

record reply =
  latency :: nat
  response :: response

type_synonym provider = "nat \<Rightarrow> reply"

datatype event = ProviderCall nat | Sleep nat

definition inlineImage :: "string option list option \<Rightarrow> string option" where
  \<comment> \<open>the loop over the parts, returning at the first one with \<open>inlineData\<close>\<close>
  "inlineImage ps =
     (case ps of
        None \<Rightarrow> None
      | Some parts \<Rightarrow>
          (case List.find (\<lambda>part. part \<noteq> None) parts of
             Some (Some d) \<Rightarrow> Some (''data:image/png;base64,'' @ d)
           | _ \<Rightarrow> None))"

function generateIndividualIcon :: "provider \<Rightarrow> nat \<Rightarrow> nat \<Rightarrow> string \<times> event list \<times> nat" where
  "generateIndividualIcon p n retryCount =
     (case response (p n) of
        Resolves ps \<Rightarrow>
          (case inlineImage ps of
             Some img \<Rightarrow> (img, [ProviderCall (latency (p n))], Suc n)
           | None \<Rightarrow> ('''', [ProviderCall (latency (p n))], Suc n))
      | Rejects e \<Rightarrow>
          if error_code e = Some 429 \<and> retryCount < 3 then
            (case generateIndividualIcon p (Suc n) (retryCount + 1) of
               (img, evs, n') \<Rightarrow>
                 (img, ProviderCall (latency (p n)) # Sleep (5000 * (retryCount + 1)) # evs, n'))
          else ('''', [ProviderCall (latency (p n))], Suc n))"
  by pat_completeness auto
termination
  by (relation "measure (\<lambda>(p, n, retryCount). 3 - retryCount)") auto

definition errorCode :: "api_error \<Rightarrow> int option" where
  \<comment> \<open>\<open>error?.error?.code || error?.status\<close>\<close>
  "errorCode e =
     (case error_code e of
        Some c \<Rightarrow> if c \<noteq> 0 then Some c else error_status e
      | None \<Rightarrow> error_status e)"

function generateOnboardingImage :: "provider \<Rightarrow> nat \<Rightarrow> nat \<Rightarrow> string \<times> event list \<times> nat" where
  "generateOnboardingImage p n retryCount =
     (case response (p n) of
        Resolves ps \<Rightarrow>
          (case inlineImage ps of
             Some img \<Rightarrow> (img, [ProviderCall (latency (p n))], Suc n)
           | None \<Rightarrow> ('''', [ProviderCall (latency (p n))], Suc n))
      | Rejects e \<Rightarrow>
          if errorCode e = Some 429 \<and> retryCount < 3 then
            (let waitTime = 10000 * (retryCount + 1)
             in case generateOnboardingImage p (Suc n) (retryCount + 1) of
                  (img, evs, n') \<Rightarrow>
                    (img, ProviderCall (latency (p n)) # Sleep waitTime # evs, n'))
          else ('''', [ProviderCall (latency (p n))], Suc n))"
  by pat_completeness auto
termination
  by (relation "measure (\<lambda>(p, n, retryCount). 3 - retryCount)") auto

fun providerCalls :: "event list \<Rightarrow> nat" where
  "providerCalls [] = 0"
| "providerCalls (ProviderCall d # es) = Suc (providerCalls es)"
| "providerCalls (Sleep d # es) = providerCalls es"

fun waits :: "event list \<Rightarrow> nat list" where
  "waits [] = []"
| "waits (ProviderCall d # es) = waits es"
| "waits (Sleep d # es) = d # waits es"

fun dispatchTimes :: "nat \<Rightarrow> event list \<Rightarrow> nat list" where
  \<comment> \<open>the instants at which the provider calls of a run started at \<open>t\<close> are made\<close>
  "dispatchTimes t [] = []"
| "dispatchTimes t (ProviderCall d # es) = t # dispatchTimes (t + d) es"
| "dispatchTimes t (Sleep d # es) = dispatchTimes (t + d) es"

fun elapsed :: "event list \<Rightarrow> nat" where
  "elapsed [] = 0"
| "elapsed (ProviderCall d # es) = d + elapsed es"
| "elapsed (Sleep d # es) = d + elapsed es"

definition rateLimited :: "reply \<Rightarrow> bool" where
  \<comment> \<open>what \<open>generateIndividualIcon\<close> takes for a rate limit\<close>
  "rateLimited r =
     (case response r of Rejects e \<Rightarrow> error_code e = Some 429 | Resolves _ \<Rightarrow> False)"

definition rateLimitedOnboarding :: "reply \<Rightarrow> bool" where
  \<comment> \<open>what \<open>generateOnboardingImage\<close> takes for a rate limit\<close>
  "rateLimitedOnboarding r =
     (case response r of Rejects e \<Rightarrow> errorCode e = Some 429 | Resolves _ \<Rightarrow> False)"

definition imageOf :: "reply \<Rightarrow> string option" where
  "imageOf r = (case response r of Rejects _ \<Rightarrow> None | Resolves ps \<Rightarrow> inlineImage ps)"

section \<open>Category icons and empty-state images: the loops run at mount\<close>

text \<open>
  A promise of the storage library \<open>idb-keyval\<close> is fulfilled with a value or rejected;
  \<open>get\<close> of a key that was never set is fulfilled with \<open>undefined\<close>, here \<open>None\<close>.
  \<open>present\<close> is the test \<open>if (cached)\<close> on a stored string.
\<close>

datatype 'a promise = Rejected | Fulfilled 'a

definition present :: "string option \<Rightarrow> bool" where
  "present v = (case v of None \<Rightarrow> False | Some s \<Rightarrow> s \<noteq> [])"

record icon_category =
  cat_id :: string
  cat_subject :: string
  cat_label :: string

definition categories :: "icon_category list" where
  "categories =
     [\<lparr>cat_id = ''granos'', cat_subject = ''a bowl of rice'', cat_label = ''Grains''\<rparr>,
      \<lparr>cat_id = ''verduras'', cat_subject = ''fresh broccoli'', cat_label = ''Vegetables''\<rparr>,
      \<lparr>cat_id = ''frutas'', cat_subject = ''a red apple'', cat_label = ''Fruits''\<rparr>,
      \<lparr>cat_id = ''lacteos'', cat_subject = ''a bottle of milk'', cat_label = ''Dairy''\<rparr>,
      \<lparr>cat_id = ''proteinas'', cat_subject = ''a beef steak'', cat_label = ''Proteins''\<rparr>]"

record icons_run =
  categoryIcons :: "string \<rightharpoonup> string"
  icons :: "string \<rightharpoonup> string"
  savedIcons :: "(string \<rightharpoonup> string) option"
  icon_events :: "event list"
  icon_next :: nat
  icon_console :: "string list"

fun iconLoop :: "provider \<Rightarrow> icon_category list \<Rightarrow> icons_run \<Rightarrow> icons_run" where
  "iconLoop p [] s = s"
| "iconLoop p (cat # cats) s =
     (case generateIndividualIcon p (icon_next s) 0 of
        (iconUrl, evs, n') \<Rightarrow>
          if iconUrl \<noteq> [] then
            iconLoop p cats
              (s\<lparr>icons := (icons s)(cat_id cat \<mapsto> iconUrl),
                 categoryIcons := (categoryIcons s)(cat_id cat \<mapsto> iconUrl),
                 icon_events := icon_events s @ evs @ [Sleep 3000],
                 icon_next := n'\<rparr>)
          else
            iconLoop p cats (s\<lparr>icon_events := icon_events s @ evs, icon_next := n'\<rparr>))"

definition seedIcons :: "provider \<Rightarrow> bool \<Rightarrow> icons_run \<Rightarrow> icons_run" where
  \<comment> \<open>the loop over the categories, then \<open>set('categoryIcons', icons)\<close> in its own
      \<open>try\<close>; \<open>setOk\<close> tells whether that promise is fulfilled\<close>
  "seedIcons p setOk s =
     (let s' = iconLoop p categories s
      in if setOk then s'\<lparr>savedIcons := Some (icons s')\<rparr>
         else s'\<lparr>icon_console := icon_console s' @ [''Error saving to IndexedDB'']\<rparr>)"

definition fetchIcons ::
  "provider \<Rightarrow> (string \<rightharpoonup> string) option promise \<Rightarrow> bool \<Rightarrow> (string \<rightharpoonup> string) \<Rightarrow> icons_run" where
  \<comment> \<open>\<open>got\<close> settles \<open>get('categoryIcons')\<close>; the last argument is the state
      \<open>categoryIcons\<close> at mount. A stored object is truthy, also an empty one.\<close>
  "fetchIcons p got setOk shown =
     (let s0 = \<lparr>categoryIcons = shown, icons = Map.empty, savedIcons = None,
                icon_events = [], icon_next = 0, icon_console = []\<rparr>
      in case got of
           Fulfilled (Some saved) \<Rightarrow> s0\<lparr>categoryIcons := saved\<rparr>
         | Fulfilled None \<Rightarrow> seedIcons p setOk s0
         | Rejected \<Rightarrow>
             seedIcons p setOk (s0\<lparr>icon_console := [''Error reading from IndexedDB'']\<rparr>))"

record empty_run =
  emptyStates :: "string \<rightharpoonup> string"
  loadingEmptyStates :: "string \<rightharpoonup> bool"
  idb_empty_state :: "string \<rightharpoonup> string"
  empty_events :: "event list"
  empty_next :: nat
  empty_console :: "string list"

definition generateEmptyState :: "provider \<Rightarrow> bool \<Rightarrow> string \<Rightarrow> empty_run \<Rightarrow> empty_run" where
  \<comment> \<open>from \<open>setLoadingEmptyStates\<close> to the end of the \<open>try\<close>, a rejected \<open>set\<close> landing
      in the \<open>catch\<close>\<close>
  "generateEmptyState p setOk sid s =
     (let g = s\<lparr>loadingEmptyStates := (loadingEmptyStates s)(sid \<mapsto> True)\<rparr>
      in case generateOnboardingImage p (empty_next g) 0 of
           (img, evs, n') \<Rightarrow>
             (let g1 = g\<lparr>empty_events := empty_events g @ evs, empty_next := n'\<rparr>
              in if img \<noteq> [] then
                   (let g2 = g1\<lparr>emptyStates := (emptyStates g1)(sid \<mapsto> img)\<rparr>
                    in if setOk
                       then g2\<lparr>idb_empty_state := (idb_empty_state g2)(sid \<mapsto> img)\<rparr>
                       else g2\<lparr>empty_console :=
                                 empty_console g2 @ [''Error fetching empty state '' @ sid]\<rparr>)
                 else g1))"

definition emptyStateBody ::
  "provider \<Rightarrow> bool \<Rightarrow> bool \<Rightarrow> string \<Rightarrow> empty_run \<Rightarrow> empty_run" where
  \<comment> \<open>the \<open>try\<close> and \<open>catch\<close> of one turn of the loop\<close>
  "emptyStateBody p getOk setOk sid s =
     (if \<not> getOk then
        s\<lparr>empty_console := empty_console s @ [''Error fetching empty state '' @ sid]\<rparr>
      else case idb_empty_state s sid of
             None \<Rightarrow> generateEmptyState p setOk sid s
           | Some cached \<Rightarrow>
               if cached \<noteq> [] then s\<lparr>emptyStates := (emptyStates s)(sid \<mapsto> cached)\<rparr>
               else generateEmptyState p setOk sid s)"

fun emptyLoop ::
  "provider \<Rightarrow> (string \<Rightarrow> bool) \<Rightarrow> (string \<Rightarrow> bool) \<Rightarrow> string list \<Rightarrow> empty_run \<Rightarrow> empty_run" where
  \<comment> \<open>\<open>getOk\<close> and \<open>setOk\<close> tell, by state id, whether the storage promise is fulfilled;
      every way out of the \<open>try\<close> passes the \<open>finally\<close>\<close>
  "emptyLoop p getOk setOk [] s = s"
| "emptyLoop p getOk setOk (sid # sids) s =
     (let s' = emptyStateBody p (getOk sid) (setOk sid) sid s
      in emptyLoop p getOk setOk sids
           (s'\<lparr>loadingEmptyStates := (loadingEmptyStates s')(sid \<mapsto> False)\<rparr>))"

definition fetchEmptyStates ::
  "provider \<Rightarrow> (string \<Rightarrow> bool) \<Rightarrow> (string \<Rightarrow> bool) \<Rightarrow> (string \<rightharpoonup> string) \<Rightarrow> empty_run" where
  \<comment> \<open>the last argument is what IndexedDB holds under \<open>empty_state_<id>\<close> at mount\<close>
  "fetchEmptyStates p getOk setOk stored =
     emptyLoop p getOk setOk [''inventory'', ''recipes'']
       \<lparr>emptyStates = Map.empty, loadingEmptyStates = Map.empty, idb_empty_state = stored,
        empty_events = [], empty_next = 0, empty_console = []\<rparr>"

section \<open>Onboarding images: \<open>fetchImage\<close> as interleaved tasks\<close>

text \<open>
  Each run of the effect of \<open>Onboarding\<close> calls \<open>fetchImage\<close>, an asynchronous function:
  it runs until its next \<open>await\<close>, and goes on when the awaited promise settles, while
  other calls may have run in between. A call is a task with the point where it is
  suspended. The function closes over \<open>step\<close> and over the state \<open>loadingImages\<close> of the
  render that created the effect, kept in the task; \<open>images\<close> is read before the first
  \<open>await\<close> only. The updaters \<open>setImages\<close> and \<open>setLoadingImages\<close> act on the current
  state. \<open>generateOnboardingImage\<close> always returns a string, so its promise is fulfilled;
  \<open>generating\<close> lists the steps for which it was called.
\<close>

datatype fetch_pc = AwaitGet | AwaitGenerate | AwaitSet string | Returned

record fetch_task =
  task_step :: nat
  task_loadingImages :: "nat \<rightharpoonup> bool"
  task_pc :: fetch_pc

record onboarding =
  images :: "nat \<rightharpoonup> string"
  loadingImages :: "nat \<rightharpoonup> bool"
  idb_onboarding_img :: "nat \<rightharpoonup> string"
  generating :: "nat list"
  console :: "string list"
  tasks :: "fetch_task list"

datatype fetch_action =
    RunEffect nat
  | SettleGet nat bool
  | SettleGenerate nat string
  | SettleSet nat bool

definition taskFinally :: "nat \<Rightarrow> onboarding \<Rightarrow> onboarding" where
  \<comment> \<open>task \<open>i\<close> passes the \<open>finally\<close> and returns\<close>
  "taskFinally i w =
     w\<lparr>loadingImages := (loadingImages w)(task_step (tasks w ! i) \<mapsto> False),
       tasks := (tasks w)[i := (tasks w ! i)\<lparr>task_pc := Returned\<rparr>]\<rparr>"

definition taskReturns :: "nat \<Rightarrow> onboarding \<Rightarrow> onboarding" where
  \<comment> \<open>task \<open>i\<close> returns before the second \<open>try\<close>\<close>
  "taskReturns i w = w\<lparr>tasks := (tasks w)[i := (tasks w ! i)\<lparr>task_pc := Returned\<rparr>]\<rparr>"

definition afterMiss :: "nat \<Rightarrow> onboarding \<Rightarrow> onboarding" where
  \<comment> \<open>from \<open>if (loadingImages[step]) return\<close> to \<open>await generateOnboardingImage\<close>\<close>
  "afterMiss i w =
     (let t = tasks w ! i; step = task_step t
      in if task_loadingImages t step = Some True then taskReturns i w
         else w\<lparr>loadingImages := (loadingImages w)(step \<mapsto> True),
                generating := generating w @ [step],
                tasks := (tasks w)[i := t\<lparr>task_pc := AwaitGenerate\<rparr>]\<rparr>)"

definition afterGet :: "nat \<Rightarrow> bool \<Rightarrow> onboarding \<Rightarrow> onboarding" where
  \<comment> \<open>\<open>ok\<close>: the promise of \<open>get\<close> is fulfilled, with what the store holds\<close>
  "afterGet i ok w =
     (let step = task_step (tasks w ! i)
      in if \<not> ok then afterMiss i (w\<lparr>console := console w @ [''IDB error'']\<rparr>)
         else case idb_onboarding_img w step of
                None \<Rightarrow> afterMiss i w
              | Some cached \<Rightarrow>
                  if cached \<noteq> [] then taskReturns i (w\<lparr>images := (images w)(step \<mapsto> cached)\<rparr>)
                  else afterMiss i w)"

definition afterGenerate :: "nat \<Rightarrow> string \<Rightarrow> onboarding \<Rightarrow> onboarding" where
  "afterGenerate i img w =
     (let t = tasks w ! i; step = task_step t
      in if img \<noteq> [] then
           w\<lparr>images := (images w)(step \<mapsto> img),
             tasks := (tasks w)[i := t\<lparr>task_pc := AwaitSet img\<rparr>]\<rparr>
         else taskFinally i w)"

definition afterSet :: "nat \<Rightarrow> string \<Rightarrow> bool \<Rightarrow> onboarding \<Rightarrow> onboarding" where
  "afterSet i img ok w =
     (let step = task_step (tasks w ! i)
      in if ok then
           taskFinally i (w\<lparr>idb_onboarding_img := (idb_onboarding_img w)(step \<mapsto> img)\<rparr>)
         else taskFinally i (w\<lparr>console := console w @ [''Error fetching onboarding image:'']\<rparr>))"

fun fetchImage :: "fetch_action \<Rightarrow> onboarding \<Rightarrow> onboarding" where
  "fetchImage (RunEffect step) w =
     (if present (images w step) then w
      else w\<lparr>tasks := tasks w @
               [\<lparr>task_step = step, task_loadingImages = loadingImages w, task_pc = AwaitGet\<rparr>]\<rparr>)"
| "fetchImage (SettleGet i ok) w =
     (if i < length (tasks w) \<and> task_pc (tasks w ! i) = AwaitGet then afterGet i ok w else w)"
| "fetchImage (SettleGenerate i img) w =
     (if i < length (tasks w) \<and> task_pc (tasks w ! i) = AwaitGenerate
      then afterGenerate i img w else w)"
| "fetchImage (SettleSet i ok) w =
     (if i < length (tasks w) then
        (case task_pc (tasks w ! i) of AwaitSet img \<Rightarrow> afterSet i img ok w | _ \<Rightarrow> w)
      else w)"

definition schedule :: "fetch_action list \<Rightarrow> onboarding \<Rightarrow> onboarding" where
  "schedule as w = fold fetchImage as w"

definition onboarding0 :: onboarding where
  \<comment> \<open>the component at mount, nothing stored yet\<close>
  "onboarding0 =
     \<lparr>images = Map.empty, loadingImages = Map.empty, idb_onboarding_img = Map.empty,
      generating = [], console = [], tasks = []\<rparr>"

section \<open>Item icons: \<open>fetchItemIcons\<close> as interleaved tasks\<close>

text \<open>
  The effect on \<open>selectedCategory\<close> and \<open>manualAddStep\<close> calls \<open>fetchItemIcons\<close> each time
  the item list of a category is entered. A task holds the locals of the call: the
  category, the items still to visit, \<open>newIcons\<close> (a copy of
  the state \<open>itemIcons\<close> of the render that created the effect) and \<open>changed\<close>.
  \<open>item_generating\<close> lists the item names for which \<open>generateIndividualIcon\<close> was called.
\<close>

record food_category =
  fc_id :: string
  fc_name :: string
  fc_items :: "food list"

definition dairy :: food_category where
  "dairy =
     \<lparr>fc_id = ''lacteos'', fc_name = ''Dairy'',
      fc_items =
        [\<lparr>food_name = ''Milk'', shelfLife = 7\<rparr>,
         \<lparr>food_name = ''Yogurt'', shelfLife = 14\<rparr>,
         \<lparr>food_name = ''Cheese'', shelfLife = 21\<rparr>,
         \<lparr>food_name = ''Butter'', shelfLife = 60\<rparr>,
         \<lparr>food_name = ''Eggs'', shelfLife = 30\<rparr>]\<rparr>"

datatype item_pc =
    ItemGet string
  | ItemGenerate string
  | ItemSet string string
  | ItemSleep
  | ItemReturned

record item_task =
  it_category :: string
  it_items :: "food list"
  newIcons :: "string \<rightharpoonup> string"
  changed :: bool
  it_pc :: item_pc

record add_sheet =
  itemIcons :: "string \<rightharpoonup> string"
  idb_item_icon :: "string \<rightharpoonup> string"
  item_generating :: "string list"
  item_console :: "string list"
  item_tasks :: "item_task list"

datatype item_action =
    EnterItems food_category
  | SettleItemGet nat bool
  | SettleItemGenerate nat string
  | SettleItemSet nat bool
  | SettleItemSleep nat

fun skipKnown :: "(string \<rightharpoonup> string) \<Rightarrow> food list \<Rightarrow> food list" where
  \<comment> \<open>\<open>if (newIcons[item.name]) continue\<close> at the head of the loop\<close>
  "skipKnown ic [] = []"
| "skipKnown ic (f # fs) = (if present (ic (food_name f)) then skipKnown ic fs else f # fs)"

definition loopHead :: "item_task \<Rightarrow> add_sheet \<Rightarrow> item_task \<times> add_sheet" where
  \<comment> \<open>runs a task from the head of the loop, \<open>it_items\<close> being the items still to visit,
      to its next \<open>await get\<close>, or past the loop to \<open>if (changed) setItemIcons(newIcons)\<close>\<close>
  "loopHead t w =
     (case skipKnown (newIcons t) (it_items t) of
        [] \<Rightarrow> (t\<lparr>it_items := [], it_pc := ItemReturned\<rparr>,
               if changed t then w\<lparr>itemIcons := newIcons t\<rparr> else w)
      | f # fs \<Rightarrow> (t\<lparr>it_items := fs, it_pc := ItemGet (food_name f)\<rparr>, w))"

definition nextItem :: "nat \<Rightarrow> item_task \<Rightarrow> add_sheet \<Rightarrow> add_sheet" where
  \<comment> \<open>task \<open>i\<close>, its locals now \<open>t\<close>, is done with its current item\<close>
  "nextItem i t w =
     (case loopHead t w of (t', w') \<Rightarrow> w'\<lparr>item_tasks := (item_tasks w')[i := t']\<rparr>)"

definition itemGenerate :: "nat \<Rightarrow> string \<Rightarrow> add_sheet \<Rightarrow> add_sheet" where
  \<comment> \<open>\<open>generateIndividualIcon(item.name, selectedCategory.name)\<close> is called and awaited\<close>
  "itemGenerate i item w =
     w\<lparr>item_generating := item_generating w @ [item],
       item_tasks := (item_tasks w)[i := (item_tasks w ! i)\<lparr>it_pc := ItemGenerate item\<rparr>]\<rparr>"

definition itemAfterGet :: "nat \<Rightarrow> string \<Rightarrow> bool \<Rightarrow> add_sheet \<Rightarrow> add_sheet" where
  \<comment> \<open>\<open>ok\<close>: the promise of \<open>get\<close> is fulfilled, with what the store holds; a rejected
      one lands in the \<open>catch\<close> around the whole turn\<close>
  "itemAfterGet i item ok w =
     (let t = item_tasks w ! i
      in if \<not> ok then
           nextItem i t (w\<lparr>item_console := item_console w @ [''Error fetching icon for '' @ item]\<rparr>)
         else case idb_item_icon w item of
                None \<Rightarrow> itemGenerate i item w
              | Some cached \<Rightarrow>
                  if cached \<noteq> [] then
                    nextItem i (t\<lparr>newIcons := (newIcons t)(item \<mapsto> cached), changed := True\<rparr>) w
                  else itemGenerate i item w)"

definition itemAfterGenerate :: "nat \<Rightarrow> string \<Rightarrow> string \<Rightarrow> add_sheet \<Rightarrow> add_sheet" where
  "itemAfterGenerate i item img w =
     (let t = item_tasks w ! i
      in if img \<noteq> [] then
           w\<lparr>item_tasks :=
               (item_tasks w)[i := t\<lparr>newIcons := (newIcons t)(item \<mapsto> img),
                                      it_pc := ItemSet item img\<rparr>]\<rparr>
         else nextItem i t w)"

definition itemAfterSet :: "nat \<Rightarrow> string \<Rightarrow> string \<Rightarrow> bool \<Rightarrow> add_sheet \<Rightarrow> add_sheet" where
  \<comment> \<open>a rejected \<open>set\<close> leaves the \<open>try\<close> before \<open>changed = true\<close> and before the delay\<close>
  "itemAfterSet i item img ok w =
     (let t = item_tasks w ! i
      in if ok then
           w\<lparr>idb_item_icon := (idb_item_icon w)(item \<mapsto> img),
             item_tasks := (item_tasks w)[i := t\<lparr>changed := True, it_pc := ItemSleep\<rparr>]\<rparr>
         else
           nextItem i t (w\<lparr>item_console := item_console w @ [''Error fetching icon for '' @ item]\<rparr>))"

fun fetchItemIcons :: "item_action \<Rightarrow> add_sheet \<Rightarrow> add_sheet" where
  "fetchItemIcons (EnterItems c) w =
     (case loopHead \<lparr>it_category = fc_name c, it_items = fc_items c, newIcons = itemIcons w,
                     changed = False, it_pc = ItemReturned\<rparr> w of
        (t, w') \<Rightarrow> w'\<lparr>item_tasks := item_tasks w' @ [t]\<rparr>)"
| "fetchItemIcons (SettleItemGet i ok) w =
     (if i < length (item_tasks w) then
        (case it_pc (item_tasks w ! i) of ItemGet item \<Rightarrow> itemAfterGet i item ok w | _ \<Rightarrow> w)
      else w)"
| "fetchItemIcons (SettleItemGenerate i img) w =
     (if i < length (item_tasks w) then
        (case it_pc (item_tasks w ! i) of
           ItemGenerate item \<Rightarrow> itemAfterGenerate i item img w
         | _ \<Rightarrow> w)
      else w)"
| "fetchItemIcons (SettleItemSet i ok) w =
     (if i < length (item_tasks w) then
        (case it_pc (item_tasks w ! i) of
           ItemSet item img \<Rightarrow> itemAfterSet i item img ok w
         | _ \<Rightarrow> w)
      else w)"
| "fetchItemIcons (SettleItemSleep i) w =
     (if i < length (item_tasks w) \<and> it_pc (item_tasks w ! i) = ItemSleep
      then nextItem i (item_tasks w ! i) w else w)"

definition itemSchedule :: "item_action list \<Rightarrow> add_sheet \<Rightarrow> add_sheet" where
  "itemSchedule as w = fold fetchItemIcons as w"

definition add_sheet0 :: add_sheet where
  \<comment> \<open>the component at mount, nothing stored yet\<close>
  "add_sheet0 =
     \<lparr>itemIcons = Map.empty, idb_item_icon = Map.empty, item_generating = [],
      item_console = [], item_tasks = []\<rparr>"

definition carries :: "nat \<Rightarrow> string \<Rightarrow> string \<Rightarrow> add_sheet \<Rightarrow> bool" where
  \<comment> \<open>an invariant for the proofs: call \<open>j\<close> holds the icon \<open>v\<close> of \<open>item\<close> in its
      \<open>newIcons\<close>, with \<open>changed\<close> set, and is not at work on \<open>item\<close>\<close>
  "carries j item v w =
     (j < length (item_tasks w)
      \<and> newIcons (item_tasks w ! j) item = Some v
      \<and> changed (item_tasks w ! j)
      \<and> (case it_pc (item_tasks w ! j) of
            ItemGet x \<Rightarrow> x \<noteq> item
          | ItemGenerate x \<Rightarrow> x \<noteq> item
          | _ \<Rightarrow> True))"

section \<open>Sample inputs\<close>

definition rateLimitedThrice :: provider where
  \<comment> \<open>three rate-limit errors, then a response whose second part carries an image\<close>
  "rateLimitedThrice n =
     \<lparr>latency = 100,
      response = (if n < 3 then Rejects \<lparr>error_code = Some 429, error_status = None\<rparr>
                  else Resolves (Some [None, Some ''abc'']))\<rparr>"

definition alwaysRateLimited :: provider where
  "alwaysRateLimited n =
     \<lparr>latency = 100, response = Rejects \<lparr>error_code = Some 429, error_status = None\<rparr>\<rparr>"

definition serverError :: provider where
  \<comment> \<open>every call is rejected after 200 ms with code 500\<close>
  "serverError n =
     \<lparr>latency = 200, response = Rejects \<lparr>error_code = Some 500, error_status = None\<rparr>\<rparr>"

definition imageAfter :: "nat \<Rightarrow> provider" where
  \<comment> \<open>every call resolves after \<open>d\<close> ms with an image\<close>
  "imageAfter d n = \<lparr>latency = d, response = Resolves (Some [Some ''abc''])\<rparr>"


section \<open>Properties\<close>

lemma setHoursZero_localDay: "setHoursZero tz t = localDay tz t * msPerDay - tz"
proof -
  have "t + tz = (t + tz) div msPerDay * msPerDay + (t + tz) mod msPerDay"
    by simp
  then show ?thesis
    unfolding setHoursZero_def localDay_def by linarith
qed

lemma midnight_difference:
  "(setHoursZero tz e - setHoursZero tz now) div msPerDay = localDay tz e - localDay tz now"
proof -
  have "setHoursZero tz e - setHoursZero tz now = (localDay tz e - localDay tz now) * msPerDay"
    by (simp add: setHoursZero_localDay algebra_simps)
  moreover have "msPerDay \<noteq> 0"
    by (simp add: msPerDay_def)
  ultimately show ?thesis by simp
qed

lemma daysLeft_getExpiryStatus:
  "daysLeft (getExpiryStatus tz now e) = localDay tz e - localDay tz now"
  by (simp add: getExpiryStatus_def Let_def midnight_difference)

lemma category_getExpiryStatus:
  "category (getExpiryStatus tz now e) =
     (if localDay tz e - localDay tz now \<le> 2 then Urgent
      else if localDay tz e - localDay tz now \<le> 5 then Soon else Fresh)"
  by (simp add: getExpiryStatus_def Let_def midnight_difference)


subsection \<open>The classifier\<close>

text \<open>
  C5. The classifier computes \<open>daysLeft\<close> as the floor of the difference of the two local
  midnights over one day, and returns Urgent exactly when \<open>daysLeft \<le> 2\<close>, Soon exactly when
  \<open>3 \<le> daysLeft \<le> 5\<close> and Fresh exactly when \<open>daysLeft > 5\<close>. With today any instant of the
  local day 2024-01-10: an expiry on 2024-01-11 gives Urgent with 1 day left, on 2024-01-14
  Soon with 4, on 2024-01-20 Fresh with 10, on 2024-01-09 Urgent with -1.
\<close>

theorem getExpiryStatus_thresholds:
  "daysLeft (getExpiryStatus tz now e) = (setHoursZero tz e - setHoursZero tz now) div msPerDay
   \<and> (category (getExpiryStatus tz now e) = Urgent) = (daysLeft (getExpiryStatus tz now e) \<le> 2)
   \<and> (category (getExpiryStatus tz now e) = Soon)
       = (3 \<le> daysLeft (getExpiryStatus tz now e) \<and> daysLeft (getExpiryStatus tz now e) \<le> 5)
   \<and> (category (getExpiryStatus tz now e) = Fresh) = (5 < daysLeft (getExpiryStatus tz now e))
   \<and> (localDay tz now = daysFromCivil 2024 1 10 \<longrightarrow>
        (localDay tz e = daysFromCivil 2024 1 11 \<longrightarrow>
           category (getExpiryStatus tz now e) = Urgent \<and> daysLeft (getExpiryStatus tz now e) = 1)
      \<and> (localDay tz e = daysFromCivil 2024 1 14 \<longrightarrow>
           category (getExpiryStatus tz now e) = Soon \<and> daysLeft (getExpiryStatus tz now e) = 4)
      \<and> (localDay tz e = daysFromCivil 2024 1 20 \<longrightarrow>
           category (getExpiryStatus tz now e) = Fresh \<and> daysLeft (getExpiryStatus tz now e) = 10)
      \<and> (localDay tz e = daysFromCivil 2024 1 9 \<longrightarrow>
           category (getExpiryStatus tz now e) = Urgent \<and> daysLeft (getExpiryStatus tz now e) = -1))"
proof -
  have civil: "daysFromCivil 2024 1 10 = 19732" "daysFromCivil 2024 1 11 = 19733"
    "daysFromCivil 2024 1 14 = 19736" "daysFromCivil 2024 1 20 = 19742"
    "daysFromCivil 2024 1 9 = 19731"
    by (simp_all add: daysFromCivil_def)
  show ?thesis
    by (simp add: daysLeft_getExpiryStatus category_getExpiryStatus midnight_difference civil)
qed

theorem getExpiryStatus_thresholds_witness:
  "localDay (- 18000000) 1704898800000 = daysFromCivil 2024 1 10
   \<and> localDay (- 18000000) 1705250000000 = daysFromCivil 2024 1 14
   \<and> category (getExpiryStatus (- 18000000) 1704898800000 1705250000000) = Soon
   \<and> daysLeft (getExpiryStatus (- 18000000) 1704898800000 1705250000000) = 4"
  using getExpiryStatus_thresholds [of "- 18000000" 1704898800000 1705250000000]
  by (simp add: localDay_def msPerDay_def daysFromCivil_def)

text \<open>
  C9. The classifier is a function of the clock reading and the expiry date alone, and
  two readings of the clock in the same local calendar day give the same result for the
  same expiry date, whatever the time of day.
\<close>

theorem getExpiryStatus_stable_within_day:
  "localDay tz now1 = localDay tz now2 \<Longrightarrow>
   getExpiryStatus tz now1 e = getExpiryStatus tz now2 e"
  by (simp add: getExpiryStatus_def Let_def setHoursZero_localDay)

theorem getExpiryStatus_stable_within_day_witness:
  "localDay 3600000 1704841200000 = localDay 3600000 1704927599999
   \<and> 1704841200000 \<noteq> (1704927599999 :: int)
   \<and> getExpiryStatus 3600000 1704841200000 1705250000000
       = getExpiryStatus 3600000 1704927599999 1705250000000"
proof -
  have same: "localDay 3600000 1704841200000 = localDay 3600000 1704927599999"
    by (simp add: localDay_def msPerDay_def)
  show ?thesis
    using same getExpiryStatus_stable_within_day [OF same, of 1705250000000] by simp
qed

subsection \<open>The stored status\<close>

text \<open>
  C8, as claimed: the stored status of an item equals the status the classifier derives
  from its expiry date at write time. It does not: a manual add of Bananas (5 days) stores
  \<open>fresh\<close> where the classifier says Soon, and a manual add of Strawberries (3 days) stores
  \<open>warning\<close> where the classifier says Soon as well, so the stored status is no function
  of the classifier's. (The zone is UTC, whose offset never changes.)
\<close>

theorem stored_status_counterexample:
  "item_status (handleManualAdd 0 1704898800000 (Some ''Fruits'')
                  \<lparr>food_name = ''Bananas'', shelfLife = 5\<rparr>) = fresh
   \<and> category (getExpiryStatus 0 1704898800000
        (expiry_date (handleManualAdd 0 1704898800000 (Some ''Fruits'')
                        \<lparr>food_name = ''Bananas'', shelfLife = 5\<rparr>))) = Soon
   \<and> item_status (handleManualAdd 0 1704898800000 (Some ''Fruits'')
                    \<lparr>food_name = ''Strawberries'', shelfLife = 3\<rparr>) = warning
   \<and> category (getExpiryStatus 0 1704898800000
        (expiry_date (handleManualAdd 0 1704898800000 (Some ''Fruits'')
                        \<lparr>food_name = ''Strawberries'', shelfLife = 3\<rparr>))) = Soon"
  by (simp add: handleManualAdd_def getExpiryStatus_def setDatePlus_def setHoursZero_def
      msPerDay_def Let_def)

text \<open>
  C8, amended: the stored status is not the classifier's category. Each writer computes
  it from the day count it is given, by its own thresholds and in its own vocabulary:
  a manual add stores \<open>fresh\<close> when the shelf life is above 3 days and \<open>warning\<close> otherwise;
  the photo analysis, when the expiry date it computes is valid, stores \<open>expired\<close> when
  the estimated count is at most 0, \<open>warning\<close> when it is above 0 and at most 2, and
  \<open>fresh\<close> otherwise, a fraction counting as it is (2.5 gives \<open>fresh\<close>), with the date
  the runtime computed; when that date is invalid (the count missing or out of range) it
  throws and no item is written.
\<close>

theorem stored_status_thresholds:
  "item_status (handleManualAdd shift now sc f) = (if 3 < shelfLife f then fresh else warning)
   \<and> (setDate now (estimated_days_left r) = None \<longrightarrow>
        analyzeFoodImage setDate now r = Inl RangeError)
   \<and> (setDate now (estimated_days_left r) = Some e \<longrightarrow>
        analyzeFoodImage setDate now r =
          Inr \<lparr>name = a_name r, item_category = a_category r, expiry_date = e,
               item_status =
                 (if lessEq (estimated_days_left r) 0 then expired
                  else if lessEq (estimated_days_left r) 2 then warning else fresh),
               image_url = None\<rparr>)"
  by (simp add: handleManualAdd_def analyzeFoodImage_def Let_def)

theorem stored_status_thresholds_witness:
  "analyzeFoodImage (\<lambda>t n. Some (t + 172800000)) 1710003600000
     \<lparr>a_name = ''Fish'', a_category = ''Proteins'', estimated_days_left = Finite (5 / 2)\<rparr>
     = Inr \<lparr>name = ''Fish'', item_category = ''Proteins'', expiry_date = 1710176400000,
            item_status = fresh, image_url = None\<rparr>
   \<and> analyzeFoodImage (\<lambda>t n. Some (t + 172800000)) 1710003600000
     \<lparr>a_name = ''Fish'', a_category = ''Proteins'', estimated_days_left = Finite 2\<rparr>
     = Inr \<lparr>name = ''Fish'', item_category = ''Proteins'', expiry_date = 1710176400000,
            item_status = warning, image_url = None\<rparr>
   \<and> analyzeFoodImage (\<lambda>t n. None) 1710003600000
     \<lparr>a_name = ''Fish'', a_category = ''Proteins'', estimated_days_left = Missing\<rparr>
     = Inl RangeError
   \<and> item_status (handleManualAdd 3600000 1710003600000 (Some ''Proteins'')
        \<lparr>food_name = ''Chicken'', shelfLife = 3\<rparr>) = warning
   \<and> expiry_date (handleManualAdd 3600000 1710003600000 (Some ''Proteins'')
        \<lparr>food_name = ''Chicken'', shelfLife = 3\<rparr>) = 1710259200000"
  using
    stored_status_thresholds [of 3600000 1710003600000 "Some ''Proteins''"
      "\<lparr>food_name = ''Chicken'', shelfLife = 3\<rparr>" "\<lambda>t n. Some (t + 172800000)"
      "\<lparr>a_name = ''Fish'', a_category = ''Proteins'', estimated_days_left = Finite (5 / 2)\<rparr>"
      1710176400000]
    stored_status_thresholds [of 3600000 1710003600000 "Some ''Proteins''"
      "\<lparr>food_name = ''Chicken'', shelfLife = 3\<rparr>" "\<lambda>t n. Some (t + 172800000)"
      "\<lparr>a_name = ''Fish'', a_category = ''Proteins'', estimated_days_left = Finite 2\<rparr>"
      1710176400000]
    stored_status_thresholds [of 3600000 1710003600000 "Some ''Proteins''"
      "\<lparr>food_name = ''Chicken'', shelfLife = 3\<rparr>" "\<lambda>t n. None"
      "\<lparr>a_name = ''Fish'', a_category = ''Proteins'', estimated_days_left = Missing\<rparr>"
      0]
  by (simp add: lessEq_def handleManualAdd_def setDatePlus_def msPerDay_def)

subsection \<open>Category keys\<close>

lemma toLowerChar_idem: "toLowerChar (toLowerChar c) = toLowerChar c"
  by (simp add: toLowerChar_def)

lemma toLowerCase_idem: "toLowerCase (toLowerCase s) = toLowerCase s"
  by (simp add: toLowerCase_def toLowerChar_idem)

lemmas category_key_defs =
  getCategoryKey_def getCategoryKeyTwice_def getProperty_def CATEGORY_MAP_def
  CATEGORY_MAP_en_def objectPrototype_def truthy_def toLowerCase_def toLowerChar_def
  utf16_def canonicalIds_def

lemma aliases_canonical:
  "map_of CATEGORY_MAP k = Some v \<Longrightarrow> v \<in> set canonicalIds"
  "map_of CATEGORY_MAP_en k = Some v \<Longrightarrow> v \<in> set canonicalIds"
  by (auto simp add: CATEGORY_MAP_def CATEGORY_MAP_en_def canonicalIds_def utf16_def
      split: if_splits)

lemma canonical_fixed_all:
  "\<forall>v \<in> set canonicalIds.
     getCategoryKey CATEGORY_MAP v = Str v \<and> getCategoryKey CATEGORY_MAP_en v = Str v"
  by (simp add: category_key_defs)

lemma canonical_fixed:
  "v \<in> set canonicalIds \<Longrightarrow> getCategoryKey CATEGORY_MAP v = Str v"
  "v \<in> set canonicalIds \<Longrightarrow> getCategoryKey CATEGORY_MAP_en v = Str v"
  using canonical_fixed_all by blast+

text \<open>
  C10. \<open>getCategoryKey\<close> is claimed to send every string to a string, the canonical id of
  an alias or else the lowercase form, and to be idempotent. At \<open>constructor\<close> the lookup
  in the object literal finds the property inherited from \<open>Object.prototype\<close>, which is
  truthy: the result is that function, not the lowercase string, and a second application
  has no \<open>toLowerCase\<close> to call. The same holds at \<open>__proto__\<close>, in both tables.
\<close>

theorem getCategoryKey_inherited_property:
  "getCategoryKey CATEGORY_MAP (utf16 ''constructor'') = Inherited (utf16 ''constructor'')
   \<and> getCategoryKeyTwice CATEGORY_MAP (utf16 ''constructor'') = Inl TypeError
   \<and> getCategoryKey CATEGORY_MAP_en (utf16 ''constructor'') = Inherited (utf16 ''constructor'')
   \<and> getCategoryKeyTwice CATEGORY_MAP_en (utf16 ''constructor'') = Inl TypeError
   \<and> getCategoryKey CATEGORY_MAP (utf16 ''__proto__'') = Inherited (utf16 ''__proto__'')
   \<and> getCategoryKey CATEGORY_MAP_en (utf16 ''__proto__'') = Inherited (utf16 ''__proto__'')"
  by (simp add: category_key_defs)

text \<open>
  Away from the names inherited from \<open>Object.prototype\<close>, and with \<open>toLowerCase\<close> as
  modelled above, the canonicalisation is as described: an alias goes to one of the five canonical ids, anything else to its
  lowercase form, and a second application changes nothing.
\<close>

lemma getCategoryKey_own_or_lowercase:
  assumes "table = CATEGORY_MAP \<or> table = CATEGORY_MAP_en"
    and "toLowerCase c \<notin> set objectPrototype"
  shows "getCategoryKey table c =
           (case map_of table (toLowerCase c) of
              Some v \<Rightarrow> Str v
            | None \<Rightarrow> Str (toLowerCase c))"
    and "getCategoryKeyTwice table c = Inr (getCategoryKey table c)"
proof -
  show first: "getCategoryKey table c =
           (case map_of table (toLowerCase c) of
              Some v \<Rightarrow> Str v
            | None \<Rightarrow> Str (toLowerCase c))"
  proof (cases "map_of table (toLowerCase c)")
    case None
    with assms(2) show ?thesis
      by (simp add: getCategoryKey_def getProperty_def truthy_def)
  next
    case (Some v)
    with assms(1) have "v \<in> set canonicalIds"
      using aliases_canonical by blast
    then have "v \<noteq> []"
      by (auto simp add: canonicalIds_def utf16_def)
    with Some show ?thesis
      by (simp add: getCategoryKey_def getProperty_def truthy_def)
  qed
  show "getCategoryKeyTwice table c = Inr (getCategoryKey table c)"
  proof (cases "map_of table (toLowerCase c)")
    case None
    then have "getCategoryKey table c = Str (toLowerCase c)"
      using first by simp
    moreover have "getCategoryKey table (toLowerCase c) = Str (toLowerCase c)"
      using None assms(2)
      by (simp add: getCategoryKey_def getProperty_def truthy_def toLowerCase_idem)
    ultimately show ?thesis
      by (simp add: getCategoryKeyTwice_def)
  next
    case (Some v)
    with assms(1) have "v \<in> set canonicalIds"
      using aliases_canonical by blast
    with assms(1) have "getCategoryKey table v = Str v"
      using canonical_fixed by blast
    moreover from Some have "getCategoryKey table c = Str v"
      using first by simp
    ultimately show ?thesis
      by (simp add: getCategoryKeyTwice_def)
  qed
qed

subsection \<open>Retries and backoff\<close>

declare generateIndividualIcon.simps [simp del] generateOnboardingImage.simps [simp del]

lemma upt_shift: "map f [0..<Suc k] = f 0 # map (\<lambda>i. f (Suc i)) [0..<k]"
proof -
  have "[0..<Suc k] = 0 # map Suc [0..<k]"
    by (simp add: upt_conv_Cons map_Suc_upt del: upt_Suc)
  then show ?thesis
    by (simp add: comp_def del: upt_Suc)
qed

lemma icon_resolves:
  "imageOf (p n) = Some img \<Longrightarrow>
   generateIndividualIcon p n r = (img, [ProviderCall (latency (p n))], Suc n)"
  by (subst generateIndividualIcon.simps)
     (auto simp add: imageOf_def split: response.splits option.splits)

lemma icon_retries:
  "rateLimited (p n) \<Longrightarrow> r < 3 \<Longrightarrow>
   generateIndividualIcon p n r =
     (case generateIndividualIcon p (Suc n) (Suc r) of
        (img, evs, n') \<Rightarrow> (img, ProviderCall (latency (p n)) # Sleep (5000 * (r + 1)) # evs, n'))"
  by (subst generateIndividualIcon.simps)
     (auto simp add: rateLimited_def split: response.splits)

lemma icon_gives_up:
  "imageOf (p n) = None \<Longrightarrow> \<not> rateLimited (p n) \<or> 3 \<le> r \<Longrightarrow>
   generateIndividualIcon p n r = ('''', [ProviderCall (latency (p n))], Suc n)"
  by (subst generateIndividualIcon.simps)
     (auto simp add: imageOf_def rateLimited_def split: response.splits option.splits)

lemma rateLimited_no_image: "rateLimited r \<Longrightarrow> imageOf r = None"
  by (simp add: rateLimited_def imageOf_def split: response.splits)

lemma icon_backoff_success:
  "\<forall>i<k. rateLimited (p (n + i)) \<Longrightarrow> r + k \<le> 3 \<Longrightarrow> imageOf (p (n + k)) = Some img \<Longrightarrow>
   (case generateIndividualIcon p n r of
      (u, evs, n') \<Rightarrow>
        u = img \<and> providerCalls evs = k + 1
        \<and> waits evs = map (\<lambda>i. 5000 * (r + i + 1)) [0..<k] \<and> n' = n + k + 1)"
proof (induction k arbitrary: n r)
  case 0
  then show ?case by (simp add: icon_resolves)
next
  case (Suc k)
  from Suc.prems(1) have rl: "rateLimited (p n)" by force
  from Suc.prems(1) have "\<forall>i<k. rateLimited (p (Suc n + i))" by auto
  moreover from Suc.prems(2) have "Suc r + k \<le> 3" by simp
  moreover from Suc.prems(3) have "imageOf (p (Suc n + k)) = Some img" by simp
  ultimately have ih: "case generateIndividualIcon p (Suc n) (Suc r) of
      (u, evs, n') \<Rightarrow>
        u = img \<and> providerCalls evs = k + 1
        \<and> waits evs = map (\<lambda>i. 5000 * (Suc r + i + 1)) [0..<k] \<and> n' = Suc n + k + 1"
    by (rule Suc.IH)
  from Suc.prems(2) have "r < 3" by simp
  with rl ih show ?case
    by (simp add: icon_retries upt_shift split: prod.splits del: upt_Suc)
qed

lemma icon_backoff_exhausted:
  "\<forall>i\<le>k. rateLimited (p (n + i)) \<Longrightarrow> r + k = 3 \<Longrightarrow>
   (case generateIndividualIcon p n r of
      (u, evs, n') \<Rightarrow>
        u = '''' \<and> providerCalls evs = k + 1
        \<and> waits evs = map (\<lambda>i. 5000 * (r + i + 1)) [0..<k] \<and> n' = n + k + 1)"
proof (induction k arbitrary: n r)
  case 0
  then show ?case by (simp add: icon_gives_up rateLimited_no_image)
next
  case (Suc k)
  from Suc.prems(1) have rl: "rateLimited (p n)" by force
  from Suc.prems(1) have "\<forall>i\<le>k. rateLimited (p (Suc n + i))" by auto
  moreover from Suc.prems(2) have "Suc r + k = 3" by simp
  ultimately have ih: "case generateIndividualIcon p (Suc n) (Suc r) of
      (u, evs, n') \<Rightarrow>
        u = '''' \<and> providerCalls evs = k + 1
        \<and> waits evs = map (\<lambda>i. 5000 * (Suc r + i + 1)) [0..<k] \<and> n' = Suc n + k + 1"
    by (rule Suc.IH)
  from Suc.prems(2) have "r < 3" by simp
  with rl ih show ?case
    by (simp add: icon_retries upt_shift split: prod.splits del: upt_Suc)
qed

lemma onboarding_resolves:
  "imageOf (p n) = Some img \<Longrightarrow>
   generateOnboardingImage p n r = (img, [ProviderCall (latency (p n))], Suc n)"
  by (subst generateOnboardingImage.simps)
     (auto simp add: imageOf_def split: response.splits option.splits)

lemma onboarding_retries:
  "rateLimitedOnboarding (p n) \<Longrightarrow> r < 3 \<Longrightarrow>
   generateOnboardingImage p n r =
     (case generateOnboardingImage p (Suc n) (Suc r) of
        (img, evs, n') \<Rightarrow> (img, ProviderCall (latency (p n)) # Sleep (10000 * (r + 1)) # evs, n'))"
  by (subst generateOnboardingImage.simps)
     (auto simp add: rateLimitedOnboarding_def Let_def split: response.splits)

lemma onboarding_gives_up:
  "imageOf (p n) = None \<Longrightarrow> \<not> rateLimitedOnboarding (p n) \<or> 3 \<le> r \<Longrightarrow>
   generateOnboardingImage p n r = ('''', [ProviderCall (latency (p n))], Suc n)"
  by (subst generateOnboardingImage.simps)
     (auto simp add: imageOf_def rateLimitedOnboarding_def split: response.splits option.splits)

lemma rateLimitedOnboarding_no_image: "rateLimitedOnboarding r \<Longrightarrow> imageOf r = None"
  by (simp add: rateLimitedOnboarding_def imageOf_def split: response.splits)

lemma onboarding_backoff_success:
  "\<forall>i<k. rateLimitedOnboarding (p (n + i)) \<Longrightarrow> r + k \<le> 3 \<Longrightarrow> imageOf (p (n + k)) = Some img \<Longrightarrow>
   (case generateOnboardingImage p n r of
      (u, evs, n') \<Rightarrow>
        u = img \<and> providerCalls evs = k + 1
        \<and> waits evs = map (\<lambda>i. 10000 * (r + i + 1)) [0..<k] \<and> n' = n + k + 1)"
proof (induction k arbitrary: n r)
  case 0
  then show ?case by (simp add: onboarding_resolves)
next
  case (Suc k)
  from Suc.prems(1) have rl: "rateLimitedOnboarding (p n)" by force
  from Suc.prems(1) have "\<forall>i<k. rateLimitedOnboarding (p (Suc n + i))" by auto
  moreover from Suc.prems(2) have "Suc r + k \<le> 3" by simp
  moreover from Suc.prems(3) have "imageOf (p (Suc n + k)) = Some img" by simp
  ultimately have ih: "case generateOnboardingImage p (Suc n) (Suc r) of
      (u, evs, n') \<Rightarrow>
        u = img \<and> providerCalls evs = k + 1
        \<and> waits evs = map (\<lambda>i. 10000 * (Suc r + i + 1)) [0..<k] \<and> n' = Suc n + k + 1"
    by (rule Suc.IH)
  from Suc.prems(2) have "r < 3" by simp
  with rl ih show ?case
    by (simp add: onboarding_retries upt_shift split: prod.splits del: upt_Suc)
qed

lemma onboarding_backoff_exhausted:
  "\<forall>i\<le>k. rateLimitedOnboarding (p (n + i)) \<Longrightarrow> r + k = 3 \<Longrightarrow>
   (case generateOnboardingImage p n r of
      (u, evs, n') \<Rightarrow>
        u = '''' \<and> providerCalls evs = k + 1
        \<and> waits evs = map (\<lambda>i. 10000 * (r + i + 1)) [0..<k] \<and> n' = n + k + 1)"
proof (induction k arbitrary: n r)
  case 0
  then show ?case by (simp add: onboarding_gives_up rateLimitedOnboarding_no_image)
next
  case (Suc k)
  from Suc.prems(1) have rl: "rateLimitedOnboarding (p n)" by force
  from Suc.prems(1) have "\<forall>i\<le>k. rateLimitedOnboarding (p (Suc n + i))" by auto
  moreover from Suc.prems(2) have "Suc r + k = 3" by simp
  ultimately have ih: "case generateOnboardingImage p (Suc n) (Suc r) of
      (u, evs, n') \<Rightarrow>
        u = '''' \<and> providerCalls evs = k + 1
        \<and> waits evs = map (\<lambda>i. 10000 * (Suc r + i + 1)) [0..<k] \<and> n' = Suc n + k + 1"
    by (rule Suc.IH)
  from Suc.prems(2) have "r < 3" by simp
  with rl ih show ?case
    by (simp add: onboarding_retries upt_shift split: prod.splits del: upt_Suc)
qed


lemma sorted_linear_waits: "sorted (map (\<lambda>i. b * (i + 1)) [0..<k :: nat])"
  by (simp add: sorted_map sorted_wrt_iff_nth_less)

lemma icon_trace_success:
  assumes "rateLimited (p n)" "rateLimited (p (n + 1))" "rateLimited (p (n + 2))"
    and "imageOf (p (n + 3)) = Some img"
  shows "generateIndividualIcon p n 0 =
     (img, [ProviderCall (latency (p n)), Sleep 5000,
            ProviderCall (latency (p (n + 1))), Sleep 10000,
            ProviderCall (latency (p (n + 2))), Sleep 15000,
            ProviderCall (latency (p (n + 3)))], n + 4)"
proof -
  have "generateIndividualIcon p (n + 3) 3 =
          (img, [ProviderCall (latency (p (n + 3)))], n + 4)"
    using assms(4) by (simp add: icon_resolves)
  then have "generateIndividualIcon p (n + 2) 2 =
          (img, [ProviderCall (latency (p (n + 2))), Sleep 15000,
                 ProviderCall (latency (p (n + 3)))], n + 4)"
    using assms(3) icon_retries [of p "n + 2" 2] by (simp add: numeral_3_eq_3 numeral_2_eq_2)
  then have "generateIndividualIcon p (n + 1) 1 =
          (img, [ProviderCall (latency (p (n + 1))), Sleep 10000,
                 ProviderCall (latency (p (n + 2))), Sleep 15000,
                 ProviderCall (latency (p (n + 3)))], n + 4)"
    using assms(2) icon_retries [of p "n + 1" 1] by (simp add: numeral_2_eq_2)
  then show ?thesis
    using assms(1) icon_retries [of p n 0] by simp
qed

lemma icon_trace_exhausted:
  assumes "rateLimited (p n)" "rateLimited (p (n + 1))" "rateLimited (p (n + 2))"
    and "rateLimited (p (n + 3))"
  shows "generateIndividualIcon p n 0 =
     ('''', [ProviderCall (latency (p n)), Sleep 5000,
            ProviderCall (latency (p (n + 1))), Sleep 10000,
            ProviderCall (latency (p (n + 2))), Sleep 15000,
            ProviderCall (latency (p (n + 3)))], n + 4)"
proof -
  have "generateIndividualIcon p (n + 3) 3 =
          ('''', [ProviderCall (latency (p (n + 3)))], n + 4)"
    using assms(4) by (simp add: icon_gives_up rateLimited_no_image)
  then have "generateIndividualIcon p (n + 2) 2 =
          ('''', [ProviderCall (latency (p (n + 2))), Sleep 15000,
                 ProviderCall (latency (p (n + 3)))], n + 4)"
    using assms(3) icon_retries [of p "n + 2" 2] by (simp add: numeral_3_eq_3 numeral_2_eq_2)
  then have "generateIndividualIcon p (n + 1) 1 =
          ('''', [ProviderCall (latency (p (n + 1))), Sleep 10000,
                 ProviderCall (latency (p (n + 2))), Sleep 15000,
                 ProviderCall (latency (p (n + 3)))], n + 4)"
    using assms(2) icon_retries [of p "n + 1" 1] by (simp add: numeral_2_eq_2)
  then show ?thesis
    using assms(1) icon_retries [of p n 0] by simp
qed

lemma onboarding_trace_success:
  assumes "rateLimitedOnboarding (p n)" "rateLimitedOnboarding (p (n + 1))" "rateLimitedOnboarding (p (n + 2))"
    and "imageOf (p (n + 3)) = Some img"
  shows "generateOnboardingImage p n 0 =
     (img, [ProviderCall (latency (p n)), Sleep 10000,
            ProviderCall (latency (p (n + 1))), Sleep 20000,
            ProviderCall (latency (p (n + 2))), Sleep 30000,
            ProviderCall (latency (p (n + 3)))], n + 4)"
proof -
  have "generateOnboardingImage p (n + 3) 3 =
          (img, [ProviderCall (latency (p (n + 3)))], n + 4)"
    using assms(4) by (simp add: onboarding_resolves)
  then have "generateOnboardingImage p (n + 2) 2 =
          (img, [ProviderCall (latency (p (n + 2))), Sleep 30000,
                 ProviderCall (latency (p (n + 3)))], n + 4)"
    using assms(3) onboarding_retries [of p "n + 2" 2] by (simp add: numeral_3_eq_3 numeral_2_eq_2)
  then have "generateOnboardingImage p (n + 1) 1 =
          (img, [ProviderCall (latency (p (n + 1))), Sleep 20000,
                 ProviderCall (latency (p (n + 2))), Sleep 30000,
                 ProviderCall (latency (p (n + 3)))], n + 4)"
    using assms(2) onboarding_retries [of p "n + 1" 1] by (simp add: numeral_2_eq_2)
  then show ?thesis
    using assms(1) onboarding_retries [of p n 0] by simp
qed

lemma onboarding_trace_exhausted:
  assumes "rateLimitedOnboarding (p n)" "rateLimitedOnboarding (p (n + 1))" "rateLimitedOnboarding (p (n + 2))"
    and "rateLimitedOnboarding (p (n + 3))"
  shows "generateOnboardingImage p n 0 =
     ('''', [ProviderCall (latency (p n)), Sleep 10000,
            ProviderCall (latency (p (n + 1))), Sleep 20000,
            ProviderCall (latency (p (n + 2))), Sleep 30000,
            ProviderCall (latency (p (n + 3)))], n + 4)"
proof -
  have "generateOnboardingImage p (n + 3) 3 =
          ('''', [ProviderCall (latency (p (n + 3)))], n + 4)"
    using assms(4) by (simp add: onboarding_gives_up rateLimitedOnboarding_no_image)
  then have "generateOnboardingImage p (n + 2) 2 =
          ('''', [ProviderCall (latency (p (n + 2))), Sleep 30000,
                 ProviderCall (latency (p (n + 3)))], n + 4)"
    using assms(3) onboarding_retries [of p "n + 2" 2] by (simp add: numeral_3_eq_3 numeral_2_eq_2)
  then have "generateOnboardingImage p (n + 1) 1 =
          ('''', [ProviderCall (latency (p (n + 1))), Sleep 20000,
                 ProviderCall (latency (p (n + 2))), Sleep 30000,
                 ProviderCall (latency (p (n + 3)))], n + 4)"
    using assms(2) onboarding_retries [of p "n + 1" 1] by (simp add: numeral_2_eq_2)
  then show ?thesis
    using assms(1) onboarding_retries [of p n 0] by simp
qed

lemma icon_calls_bound:
  "providerCalls (fst (snd (generateIndividualIcon p n r))) \<le> Suc (3 - r)"
proof (induction p n r rule: generateIndividualIcon.induct)
  case (1 p n retryCount)
  show ?case
    using 1
    by (subst generateIndividualIcon.simps)
       (auto split: response.splits option.splits prod.splits)
qed

lemma onboarding_calls_bound:
  "providerCalls (fst (snd (generateOnboardingImage p n r))) \<le> Suc (3 - r)"
proof (induction p n r rule: generateOnboardingImage.induct)
  case (1 p n retryCount)
  show ?case
  proof (cases "response (p n)")
    case (Resolves ps)
    then show ?thesis
      by (subst generateOnboardingImage.simps) (simp split: option.splits)
  next
    case (Rejects e)
    show ?thesis
    proof (cases "errorCode e = Some 429 \<and> retryCount < 3")
      case False
      with Rejects show ?thesis
        by (subst generateOnboardingImage.simps) auto
    next
      case True
      with Rejects have
        "providerCalls (fst (snd (generateOnboardingImage p (Suc n) (retryCount + 1))))
           \<le> Suc (3 - (retryCount + 1))"
        using "1.IH" by blast
      with True Rejects show ?thesis
        by (subst generateOnboardingImage.simps) (auto simp add: Let_def split: prod.splits)
    qed
  qed
qed

text \<open>
  C2. On a rate-limit error the generator sleeps \<open>baseDelay * (attempt + 1)\<close> and calls
  again, at most three times (base 5000 ms for icons, 10000 ms for onboarding images).
  After \<open>k \<le> 3\<close> rate-limit errors and then an image it has made \<open>k + 1\<close> provider calls
  with the waits \<open>baseDelay * 1, ..., baseDelay * k\<close>, which never decrease, and returns the
  image; for \<open>k = 3\<close> that is 4 calls. After four rate-limit errors in a row it returns
  the empty string, having made exactly 4 calls and consumed no fifth reply. No run makes
  more than 4 calls.
\<close>

theorem rate_limit_backoff:
  "(k \<le> 3 \<longrightarrow> (\<forall>i<k. rateLimited (p (n + i))) \<longrightarrow> imageOf (p (n + k)) = Some img \<longrightarrow>
      (case generateIndividualIcon p n 0 of
         (u, evs, n') \<Rightarrow>
           u = img \<and> providerCalls evs = k + 1
           \<and> waits evs = map (\<lambda>i. 5000 * (i + 1)) [0..<k] \<and> sorted (waits evs)
           \<and> n' = n + k + 1))
   \<and> ((\<forall>i<4. rateLimited (p (n + i))) \<longrightarrow>
        generateIndividualIcon p n 0 =
          ('''', [ProviderCall (latency (p n)), Sleep 5000,
                 ProviderCall (latency (p (n + 1))), Sleep 10000,
                 ProviderCall (latency (p (n + 2))), Sleep 15000,
                 ProviderCall (latency (p (n + 3)))], n + 4))
   \<and> providerCalls (fst (snd (generateIndividualIcon p n 0))) \<le> 4
   \<and> (k \<le> 3 \<longrightarrow> (\<forall>i<k. rateLimitedOnboarding (p (n + i))) \<longrightarrow>
        imageOf (p (n + k)) = Some img \<longrightarrow>
      (case generateOnboardingImage p n 0 of
         (u, evs, n') \<Rightarrow>
           u = img \<and> providerCalls evs = k + 1
           \<and> waits evs = map (\<lambda>i. 10000 * (i + 1)) [0..<k] \<and> sorted (waits evs)
           \<and> n' = n + k + 1))
   \<and> ((\<forall>i<4. rateLimitedOnboarding (p (n + i))) \<longrightarrow>
        generateOnboardingImage p n 0 =
          ('''', [ProviderCall (latency (p n)), Sleep 10000,
                 ProviderCall (latency (p (n + 1))), Sleep 20000,
                 ProviderCall (latency (p (n + 2))), Sleep 30000,
                 ProviderCall (latency (p (n + 3)))], n + 4))
   \<and> providerCalls (fst (snd (generateOnboardingImage p n 0))) \<le> 4"
proof (intro conjI impI)
  assume "k \<le> 3" "\<forall>i<k. rateLimited (p (n + i))" "imageOf (p (n + k)) = Some img"
  then show "case generateIndividualIcon p n 0 of
         (u, evs, n') \<Rightarrow>
           u = img \<and> providerCalls evs = k + 1
           \<and> waits evs = map (\<lambda>i. 5000 * (i + 1)) [0..<k] \<and> sorted (waits evs)
           \<and> n' = n + k + 1"
    using icon_backoff_success [of k p n 0 img] sorted_linear_waits [of 5000 k]
    by (auto split: prod.splits)
next
  assume a: "\<forall>i<4. rateLimited (p (n + i))"
  have "rateLimited (p n)" "rateLimited (p (n + 1))" "rateLimited (p (n + 2))"
    "rateLimited (p (n + 3))"
    using a [rule_format, of 0] a [rule_format, of 1] a [rule_format, of 2]
      a [rule_format, of 3]
    by simp_all
  then show "generateIndividualIcon p n 0 =
          ('''', [ProviderCall (latency (p n)), Sleep 5000,
                 ProviderCall (latency (p (n + 1))), Sleep 10000,
                 ProviderCall (latency (p (n + 2))), Sleep 15000,
                 ProviderCall (latency (p (n + 3)))], n + 4)"
    using icon_trace_exhausted [of p n] by simp
next
  show "providerCalls (fst (snd (generateIndividualIcon p n 0))) \<le> 4"
    using icon_calls_bound [of p n 0] by simp
next
  assume "k \<le> 3" "\<forall>i<k. rateLimitedOnboarding (p (n + i))" "imageOf (p (n + k)) = Some img"
  then show "case generateOnboardingImage p n 0 of
         (u, evs, n') \<Rightarrow>
           u = img \<and> providerCalls evs = k + 1
           \<and> waits evs = map (\<lambda>i. 10000 * (i + 1)) [0..<k] \<and> sorted (waits evs)
           \<and> n' = n + k + 1"
    using onboarding_backoff_success [of k p n 0 img] sorted_linear_waits [of 10000 k]
    by (auto split: prod.splits)
next
  assume a: "\<forall>i<4. rateLimitedOnboarding (p (n + i))"
  have "rateLimitedOnboarding (p n)" "rateLimitedOnboarding (p (n + 1))"
    "rateLimitedOnboarding (p (n + 2))" "rateLimitedOnboarding (p (n + 3))"
    using a [rule_format, of 0] a [rule_format, of 1] a [rule_format, of 2]
      a [rule_format, of 3]
    by simp_all
  then show "generateOnboardingImage p n 0 =
          ('''', [ProviderCall (latency (p n)), Sleep 10000,
                 ProviderCall (latency (p (n + 1))), Sleep 20000,
                 ProviderCall (latency (p (n + 2))), Sleep 30000,
                 ProviderCall (latency (p (n + 3)))], n + 4)"
    using onboarding_trace_exhausted [of p n] by simp
next
  show "providerCalls (fst (snd (generateOnboardingImage p n 0))) \<le> 4"
    using onboarding_calls_bound [of p n 0] by simp
qed

theorem rate_limit_backoff_witness:
  "rateLimited (rateLimitedThrice 0) \<and> rateLimited (rateLimitedThrice 1)
   \<and> rateLimited (rateLimitedThrice 2)
   \<and> rateLimitedOnboarding (rateLimitedThrice 0) \<and> rateLimitedOnboarding (rateLimitedThrice 1)
   \<and> rateLimitedOnboarding (rateLimitedThrice 2)
   \<and> imageOf (rateLimitedThrice 3) = Some ''data:image/png;base64,abc''
   \<and> (case generateIndividualIcon rateLimitedThrice 0 0 of
         (u, evs, n') \<Rightarrow>
           u = ''data:image/png;base64,abc'' \<and> providerCalls evs = 4
           \<and> waits evs = [5000, 10000, 15000] \<and> n' = 4)
   \<and> (case generateOnboardingImage rateLimitedThrice 0 0 of
         (u, evs, n') \<Rightarrow>
           u = ''data:image/png;base64,abc'' \<and> providerCalls evs = 4
           \<and> waits evs = [10000, 20000, 30000] \<and> n' = 4)
   \<and> rateLimited (alwaysRateLimited 3) \<and> rateLimitedOnboarding (alwaysRateLimited 3)
   \<and> generateIndividualIcon alwaysRateLimited 0 0 =
        ('''', [ProviderCall 100, Sleep 5000, ProviderCall 100, Sleep 10000,
               ProviderCall 100, Sleep 15000, ProviderCall 100], 4)
   \<and> generateOnboardingImage alwaysRateLimited 0 0 =
        ('''', [ProviderCall 100, Sleep 10000, ProviderCall 100, Sleep 20000,
               ProviderCall 100, Sleep 30000, ProviderCall 100], 4)"
proof -
  have h1: "\<forall>i<3. rateLimited (rateLimitedThrice (0 + i))"
    and h2: "\<forall>i<3. rateLimitedOnboarding (rateLimitedThrice (0 + i))"
    by (simp_all add: rateLimitedThrice_def rateLimited_def rateLimitedOnboarding_def
        errorCode_def)
  have h3: "imageOf (rateLimitedThrice (0 + 3)) = Some ''data:image/png;base64,abc''"
    by (simp add: rateLimitedThrice_def imageOf_def inlineImage_def)
  have h4: "\<forall>i<4. rateLimited (alwaysRateLimited (0 + i))"
    and h5: "\<forall>i<4. rateLimitedOnboarding (alwaysRateLimited (0 + i))"
    by (simp_all add: alwaysRateLimited_def rateLimited_def rateLimitedOnboarding_def
        errorCode_def)
  have l: "\<And>i. latency (alwaysRateLimited i) = 100"
    by (simp add: alwaysRateLimited_def)
  have u: "[0..<3] = [0, 1, 2 :: nat]"
    by (simp add: numeral_3_eq_3)
  have r: "\<And>i. i < 3 \<Longrightarrow> rateLimited (rateLimitedThrice i)"
    "\<And>i. i < 3 \<Longrightarrow> rateLimitedOnboarding (rateLimitedThrice i)"
    "\<And>i. rateLimited (alwaysRateLimited i)" "\<And>i. rateLimitedOnboarding (alwaysRateLimited i)"
    by (simp_all add: rateLimitedThrice_def alwaysRateLimited_def rateLimited_def
        rateLimitedOnboarding_def errorCode_def)
  show ?thesis
    using h1 h2 h3 h4 h5
      rate_limit_backoff [of 3 rateLimitedThrice 0 "''data:image/png;base64,abc''"]
      rate_limit_backoff [of 3 alwaysRateLimited 0 "''data:image/png;base64,abc''"]
    by (simp add: l u r split: prod.splits)
qed

text \<open>
  C6. A provider failure that is not a rate limit (for icons \<open>error.error.code\<close> other
  than 429, for onboarding images \<open>error.error.code || error.status\<close> other than 429), and
  likewise a response without an image part, ends the generator at once: one provider
  call, no sleep, and the empty string as an ordinary return value, whatever the retry
  count. \<open>fetchImage\<close>, handed the empty string, stores nothing, leaves \<open>images\<close> as it
  was, clears the loading flag of the step and returns.
\<close>

theorem other_failure_no_retry:
  "(response (p n) = Rejects e \<and> error_code e \<noteq> Some 429 \<longrightarrow>
      generateIndividualIcon p n r = ('''', [ProviderCall (latency (p n))], Suc n))
   \<and> (response (p n) = Resolves ps \<and> inlineImage ps = None \<longrightarrow>
      generateIndividualIcon p n r = ('''', [ProviderCall (latency (p n))], Suc n))
   \<and> (response (p n) = Rejects e \<and> errorCode e \<noteq> Some 429 \<longrightarrow>
      generateOnboardingImage p n r = ('''', [ProviderCall (latency (p n))], Suc n))
   \<and> (response (p n) = Resolves ps \<and> inlineImage ps = None \<longrightarrow>
      generateOnboardingImage p n r = ('''', [ProviderCall (latency (p n))], Suc n))
   \<and> (i < length (tasks w) \<and> task_pc (tasks w ! i) = AwaitGenerate \<longrightarrow>
        images (fetchImage (SettleGenerate i '''') w) = images w
      \<and> idb_onboarding_img (fetchImage (SettleGenerate i '''') w) = idb_onboarding_img w
      \<and> loadingImages (fetchImage (SettleGenerate i '''') w) (task_step (tasks w ! i))
          = Some False
      \<and> generating (fetchImage (SettleGenerate i '''') w) = generating w
      \<and> task_pc (tasks (fetchImage (SettleGenerate i '''') w) ! i) = Returned)"
proof (intro conjI impI)
  assume "response (p n) = Rejects e \<and> error_code e \<noteq> Some 429"
  then show "generateIndividualIcon p n r = ('''', [ProviderCall (latency (p n))], Suc n)"
    by (simp add: icon_gives_up imageOf_def rateLimited_def)
next
  assume "response (p n) = Resolves ps \<and> inlineImage ps = None"
  then show "generateIndividualIcon p n r = ('''', [ProviderCall (latency (p n))], Suc n)"
    by (simp add: icon_gives_up imageOf_def rateLimited_def)
next
  assume "response (p n) = Rejects e \<and> errorCode e \<noteq> Some 429"
  then show "generateOnboardingImage p n r = ('''', [ProviderCall (latency (p n))], Suc n)"
    by (simp add: onboarding_gives_up imageOf_def rateLimitedOnboarding_def)
next
  assume "response (p n) = Resolves ps \<and> inlineImage ps = None"
  then show "generateOnboardingImage p n r = ('''', [ProviderCall (latency (p n))], Suc n)"
    by (simp add: onboarding_gives_up imageOf_def rateLimitedOnboarding_def)
qed (simp_all add: afterGenerate_def taskFinally_def Let_def)

theorem other_failure_no_retry_witness:
  "response (serverError 0) = Rejects \<lparr>error_code = Some 500, error_status = None\<rparr>
   \<and> error_code \<lparr>error_code = Some 500, error_status = None\<rparr> \<noteq> Some 429
   \<and> errorCode \<lparr>error_code = Some 500, error_status = None\<rparr> \<noteq> Some 429
   \<and> generateIndividualIcon serverError 0 0 = ('''', [ProviderCall 200], 1)
   \<and> generateOnboardingImage serverError 0 0 = ('''', [ProviderCall 200], 1)
   \<and> images (schedule [RunEffect 0, SettleGet 0 True, SettleGenerate 0 ''''] onboarding0) 0
        = None
   \<and> loadingImages (schedule [RunEffect 0, SettleGet 0 True, SettleGenerate 0 ''''] onboarding0) 0
        = Some False"
proof -
  let ?e = "\<lparr>error_code = Some 500, error_status = None\<rparr>"
  let ?w = "schedule [RunEffect 0, SettleGet 0 True] onboarding0"
  have h: "response (serverError 0) = Rejects ?e" "error_code ?e \<noteq> Some 429"
    "errorCode ?e \<noteq> Some 429"
    by (simp_all add: serverError_def errorCode_def)
  have l: "latency (serverError 0) = 200"
    by (simp add: serverError_def)
  have w: "0 < length (tasks ?w)" "task_pc (tasks ?w ! 0) = AwaitGenerate"
    "task_step (tasks ?w ! 0) = 0" "images ?w = Map.empty"
    by (simp_all add: schedule_def onboarding0_def present_def afterGet_def afterMiss_def Let_def)
  have s: "schedule [RunEffect 0, SettleGet 0 True, SettleGenerate 0 ''''] onboarding0
             = fetchImage (SettleGenerate 0 '''') ?w"
    by (simp add: schedule_def)
  show ?thesis
    using h w other_failure_no_retry [of serverError 0 ?e 0 None 0 ?w]
    by (simp only: s l) simp
qed

subsection \<open>The cache flows\<close>

lemma loopHead_keeps:
  "newIcons (fst (loopHead t w)) = newIcons t"
  "changed (fst (loopHead t w)) = changed t"
  "item_generating (snd (loopHead t w)) = item_generating w"
  "item_tasks (snd (loopHead t w)) = item_tasks w"
  "idb_item_icon (snd (loopHead t w)) = idb_item_icon w"
  by (simp_all add: loopHead_def split: list.splits)

lemma nextItem_keeps:
  "item_generating (nextItem i t w) = item_generating w"
  "idb_item_icon (nextItem i t w) = idb_item_icon w"
  "length (item_tasks (nextItem i t w)) = length (item_tasks w)"
  "i < length (item_tasks w) \<Longrightarrow> newIcons (item_tasks (nextItem i t w) ! i) = newIcons t"
  "i < length (item_tasks w) \<Longrightarrow> changed (item_tasks (nextItem i t w) ! i) = changed t"
proof -
  obtain t' w' where lh: "loopHead t w = (t', w')"
    by (cases "loopHead t w")
  with loopHead_keeps [of t w] have k: "newIcons t' = newIcons t" "changed t' = changed t"
    "item_generating w' = item_generating w" "item_tasks w' = item_tasks w"
    "idb_item_icon w' = idb_item_icon w"
    by simp_all
  show "item_generating (nextItem i t w) = item_generating w"
    "idb_item_icon (nextItem i t w) = idb_item_icon w"
    "length (item_tasks (nextItem i t w)) = length (item_tasks w)"
    "i < length (item_tasks w) \<Longrightarrow> newIcons (item_tasks (nextItem i t w) ! i) = newIcons t"
    "i < length (item_tasks w) \<Longrightarrow> changed (item_tasks (nextItem i t w) ! i) = changed t"
    by (simp_all add: nextItem_def lh k)
qed

lemma skipKnown_head:
  "skipKnown ic fs = f # rest \<Longrightarrow> \<not> present (ic (food_name f))"
  by (induction fs) (auto split: if_splits)

lemma loopHead_cases:
  assumes "newIcons t item = Some v" and "v \<noteq> []"
  shows "(it_pc (fst (loopHead t w)) = ItemReturned
          \<and> snd (loopHead t w) = (if changed t then w\<lparr>itemIcons := newIcons t\<rparr> else w))
       \<or> (\<exists>x. it_pc (fst (loopHead t w)) = ItemGet x \<and> x \<noteq> item \<and> snd (loopHead t w) = w)"
proof (cases "skipKnown (newIcons t) (it_items t)")
  case Nil
  then show ?thesis
    by (simp add: loopHead_def)
next
  case (Cons f fs)
  then have "\<not> present (newIcons t (food_name f))"
    by (rule skipKnown_head)
  with assms have "food_name f \<noteq> item"
    by (auto simp add: present_def)
  with Cons show ?thesis
    by (simp add: loopHead_def)
qed

lemma nextItem_nth:
  "item_tasks (nextItem i t w) = (item_tasks w)[i := fst (loopHead t w)]"
  "itemIcons (nextItem i t w) = itemIcons (snd (loopHead t w))"
proof -
  obtain t' w' where lh: "loopHead t w = (t', w')"
    by (cases "loopHead t w")
  with loopHead_keeps(4) [of t w] have "item_tasks w' = item_tasks w"
    by simp
  with lh show "item_tasks (nextItem i t w) = (item_tasks w)[i := fst (loopHead t w)]"
    "itemIcons (nextItem i t w) = itemIcons (snd (loopHead t w))"
    by (simp_all add: nextItem_def)
qed

lemma carriesD:
  assumes "carries j item v w"
  shows "j < length (item_tasks w)" and "newIcons (item_tasks w ! j) item = Some v"
    and "changed (item_tasks w ! j)"
    and "it_pc (item_tasks w ! j) = ItemGet x \<Longrightarrow> x \<noteq> item"
    and "it_pc (item_tasks w ! j) = ItemGenerate x \<Longrightarrow> x \<noteq> item"
  using assms by (auto simp add: carries_def)

lemma carries_same_task:
  "length (item_tasks w') = length (item_tasks w) \<Longrightarrow> item_tasks w' ! j = item_tasks w ! j \<Longrightarrow>
   carries j item v w' = carries j item v w"
  by (simp add: carries_def)

lemma nextItem_carries:
  assumes "j < length (item_tasks w)" and "newIcons t item = Some v" and "v \<noteq> []"
    and "changed t"
  shows "carries j item v (nextItem j t w)"
    and "it_pc (item_tasks (nextItem j t w) ! j) = ItemReturned \<Longrightarrow>
         itemIcons (nextItem j t w) item = Some v"
proof -
  from assms(2,3) have c: "(it_pc (fst (loopHead t w)) = ItemReturned
          \<and> snd (loopHead t w) = (if changed t then w\<lparr>itemIcons := newIcons t\<rparr> else w))
       \<or> (\<exists>x. it_pc (fst (loopHead t w)) = ItemGet x \<and> x \<noteq> item \<and> snd (loopHead t w) = w)"
    by (rule loopHead_cases)
  from assms c show "carries j item v (nextItem j t w)"
    by (auto simp add: carries_def nextItem_nth loopHead_keeps)
  from assms c show "itemIcons (nextItem j t w) item = Some v"
    if "it_pc (item_tasks (nextItem j t w) ! j) = ItemReturned"
    using that by (auto simp add: nextItem_nth)
qed

lemma settle_other_task:
  assumes "i \<noteq> j"
  shows "item_tasks (fetchItemIcons (SettleItemGet i ok) w) ! j = item_tasks w ! j"
    and "item_tasks (fetchItemIcons (SettleItemGenerate i img) w) ! j = item_tasks w ! j"
    and "item_tasks (fetchItemIcons (SettleItemSet i ok) w) ! j = item_tasks w ! j"
    and "item_tasks (fetchItemIcons (SettleItemSleep i) w) ! j = item_tasks w ! j"
  using assms
  by (simp_all add: itemAfterGet_def itemGenerate_def itemAfterGenerate_def itemAfterSet_def
      Let_def nextItem_nth split: item_pc.splits option.splits)

lemma settle_length:
  "length (item_tasks (fetchItemIcons (SettleItemGet i ok) w)) = length (item_tasks w)"
  "length (item_tasks (fetchItemIcons (SettleItemGenerate i img) w)) = length (item_tasks w)"
  "length (item_tasks (fetchItemIcons (SettleItemSet i ok) w)) = length (item_tasks w)"
  "length (item_tasks (fetchItemIcons (SettleItemSleep i) w)) = length (item_tasks w)"
  by (simp_all add: itemAfterGet_def itemGenerate_def itemAfterGenerate_def itemAfterSet_def
      Let_def nextItem_nth split: item_pc.splits option.splits)

lemma enter_other_task:
  "j < length (item_tasks w) \<Longrightarrow>
   item_tasks (fetchItemIcons (EnterItems c) w) ! j = item_tasks w ! j
   \<and> j < length (item_tasks (fetchItemIcons (EnterItems c) w))"
proof -
  assume j: "j < length (item_tasks w)"
  let ?t = "\<lparr>it_category = fc_name c, it_items = fc_items c,
      newIcons = itemIcons w, changed = False, it_pc = ItemReturned\<rparr>"
  obtain t' w' where lh: "loopHead ?t w = (t', w')"
    by (cases "loopHead ?t w")
  with loopHead_keeps(4) [of ?t w] have "item_tasks w' = item_tasks w"
    by simp
  with j lh show ?thesis
    by (simp add: nth_append)
qed

lemma itemAfterGet_carries:
  assumes "carries j item v w" and "v \<noteq> []" and "it_pc (item_tasks w ! j) = ItemGet x"
  shows "carries j item v (itemAfterGet j x ok w)"
proof -
  note d = carriesD [OF assms(1)]
  from d(4) assms(3) have x: "x \<noteq> item" by simp
  have gen: "carries j item v (itemGenerate j x w)"
    using d(1,2,3) x by (simp add: carries_def itemGenerate_def)
  show ?thesis
  proof (cases ok)
    case False
    then show ?thesis
      using d(1,2,3) assms(2) by (simp add: itemAfterGet_def nextItem_carries(1) Let_def)
  next
    case True
    show ?thesis
    proof (cases "idb_item_icon w x")
      case None
      with True gen show ?thesis
        by (simp add: itemAfterGet_def Let_def)
    next
      case (Some cached)
      with True gen d(1,2,3) assms(2) x show ?thesis
        by (simp add: itemAfterGet_def Let_def nextItem_carries(1))
    qed
  qed
qed

lemma itemAfterGenerate_carries:
  assumes "carries j item v w" and "v \<noteq> []" and "it_pc (item_tasks w ! j) = ItemGenerate x"
  shows "carries j item v (itemAfterGenerate j x img w)"
proof -
  note d = carriesD [OF assms(1)]
  from d(5) assms(3) have x: "x \<noteq> item" by simp
  show ?thesis
  proof (cases "img = []")
    case True
    then show ?thesis
      using d(1,2,3) assms(2) by (simp add: itemAfterGenerate_def nextItem_carries(1) Let_def)
  next
    case False
    then show ?thesis
      using d(1,2,3) x by (simp add: itemAfterGenerate_def carries_def Let_def)
  qed
qed

lemma itemAfterSet_carries:
  assumes "carries j item v w" and "v \<noteq> []"
  shows "carries j item v (itemAfterSet j x img ok w)"
proof -
  note d = carriesD [OF assms(1)]
  show ?thesis
  proof (cases ok)
    case False
    then show ?thesis
      using d(1,2,3) assms(2) by (simp add: itemAfterSet_def nextItem_carries(1) Let_def)
  next
    case True
    then show ?thesis
      using d(1,2,3) by (simp add: itemAfterSet_def carries_def Let_def)
  qed
qed

lemma carries_step:
  assumes "carries j item v w" and "v \<noteq> []"
  shows "carries j item v (fetchItemIcons act w)"
proof (cases act)
  case (EnterItems c)
  with assms(1) enter_other_task [of j w c] show ?thesis
    by (simp add: carries_def del: fetchItemIcons.simps)
next
  case (SettleItemGet i ok)
  show ?thesis
  proof (cases "i = j")
    case False
    with assms(1) SettleItemGet show ?thesis
      by (simp del: fetchItemIcons.simps
          add: carries_same_task [OF settle_length(1) settle_other_task(1)])
  next
    case True
    with assms SettleItemGet show ?thesis
      by (auto simp add: itemAfterGet_carries split: item_pc.splits)
  qed
next
  case (SettleItemGenerate i img)
  show ?thesis
  proof (cases "i = j")
    case False
    with assms(1) SettleItemGenerate show ?thesis
      by (simp del: fetchItemIcons.simps
          add: carries_same_task [OF settle_length(2) settle_other_task(2)])
  next
    case True
    with assms SettleItemGenerate show ?thesis
      by (auto simp add: itemAfterGenerate_carries split: item_pc.splits)
  qed
next
  case (SettleItemSet i ok)
  show ?thesis
  proof (cases "i = j")
    case False
    with assms(1) SettleItemSet show ?thesis
      by (simp del: fetchItemIcons.simps
          add: carries_same_task [OF settle_length(3) settle_other_task(3)])
  next
    case True
    with assms SettleItemSet show ?thesis
      by (auto simp add: itemAfterSet_carries split: item_pc.splits)
  qed
next
  case (SettleItemSleep i)
  show ?thesis
  proof (cases "i = j")
    case False
    with assms(1) SettleItemSleep show ?thesis
      by (simp del: fetchItemIcons.simps
          add: carries_same_task [OF settle_length(4) settle_other_task(4)])
  next
    case True
    with assms SettleItemSleep carriesD(1,2,3) [OF assms(1)] show ?thesis
      by (auto simp add: nextItem_carries(1))
  qed
qed

lemma carries_schedule:
  "carries j item v w \<Longrightarrow> v \<noteq> [] \<Longrightarrow> carries j item v (itemSchedule as w)"
proof (induction as arbitrary: w)
  case Nil
  then show ?case by (simp add: itemSchedule_def)
next
  case (Cons act as)
  from Cons.prems have "carries j item v (fetchItemIcons act w)"
    by (rule carries_step)
  then have "carries j item v (itemSchedule as (fetchItemIcons act w))"
    using Cons.prems(2) by (rule Cons.IH)
  then show ?case
    by (simp add: itemSchedule_def)
qed

lemma itemAfterGet_publish:
  assumes "carries j item v w" and "v \<noteq> []" and "it_pc (item_tasks w ! j) = ItemGet x"
    and "it_pc (item_tasks (itemAfterGet j x ok w) ! j) = ItemReturned"
  shows "itemIcons (itemAfterGet j x ok w) item = Some v"
proof -
  note d = carriesD [OF assms(1)]
  from d(4) assms(3) have x: "x \<noteq> item" by simp
  show ?thesis
  proof (cases ok)
    case False
    with assms(4) show ?thesis
      using d(1,2,3) assms(2)
      by (simp add: itemAfterGet_def Let_def nextItem_carries(2))
  next
    case True
    show ?thesis
    proof (cases "idb_item_icon w x")
      case None
      with True assms(4) d(1) show ?thesis
        by (simp add: itemAfterGet_def itemGenerate_def Let_def)
    next
      case (Some cached)
      show ?thesis
      proof (cases "cached = []")
        case True
        with \<open>ok\<close> Some assms(4) d(1) show ?thesis
          by (simp add: itemAfterGet_def itemGenerate_def Let_def)
      next
        case False
        with \<open>ok\<close> Some assms(4) show ?thesis
          using d(1,2,3) assms(2) x
          by (simp add: itemAfterGet_def Let_def nextItem_carries(2))
      qed
    qed
  qed
qed

lemma itemAfterGenerate_publish:
  assumes "carries j item v w" and "v \<noteq> []"
    and "it_pc (item_tasks (itemAfterGenerate j x img w) ! j) = ItemReturned"
  shows "itemIcons (itemAfterGenerate j x img w) item = Some v"
proof -
  note d = carriesD [OF assms(1)]
  show ?thesis
  proof (cases "img = []")
    case True
    with assms(3) show ?thesis
      using d(1,2,3) assms(2) by (simp add: itemAfterGenerate_def Let_def nextItem_carries(2))
  next
    case False
    with assms(3) d(1) show ?thesis
      by (simp add: itemAfterGenerate_def Let_def)
  qed
qed

lemma itemAfterSet_publish:
  assumes "carries j item v w" and "v \<noteq> []"
    and "it_pc (item_tasks (itemAfterSet j x img ok w) ! j) = ItemReturned"
  shows "itemIcons (itemAfterSet j x img ok w) item = Some v"
proof -
  note d = carriesD [OF assms(1)]
  show ?thesis
  proof (cases ok)
    case False
    with assms(3) show ?thesis
      using d(1,2,3) assms(2) by (simp add: itemAfterSet_def Let_def nextItem_carries(2))
  next
    case True
    with assms(3) d(1) show ?thesis
      by (simp add: itemAfterSet_def Let_def)
  qed
qed

lemma publish_step:
  assumes "carries j item v w" and "v \<noteq> []"
    and "it_pc (item_tasks w ! j) \<noteq> ItemReturned"
    and "it_pc (item_tasks (fetchItemIcons act w) ! j) = ItemReturned"
  shows "itemIcons (fetchItemIcons act w) item = Some v"
proof (cases act)
  case (EnterItems c)
  with assms(3,4) enter_other_task [of j w c] carriesD(1) [OF assms(1)] show ?thesis
    by (simp del: fetchItemIcons.simps)
next
  case (SettleItemGet i ok)
  show ?thesis
  proof (cases "i = j")
    case False
    with assms(3,4) SettleItemGet settle_other_task(1) [of i j ok w] show ?thesis
      by (simp del: fetchItemIcons.simps)
  next
    case True
    with assms SettleItemGet show ?thesis
      by (auto simp add: itemAfterGet_publish split: item_pc.splits if_splits)
  qed
next
  case (SettleItemGenerate i img)
  show ?thesis
  proof (cases "i = j")
    case False
    with assms(3,4) SettleItemGenerate settle_other_task(2) [of i j img w] show ?thesis
      by (simp del: fetchItemIcons.simps)
  next
    case True
    with assms SettleItemGenerate show ?thesis
      by (auto simp add: itemAfterGenerate_publish split: item_pc.splits if_splits)
  qed
next
  case (SettleItemSet i ok)
  show ?thesis
  proof (cases "i = j")
    case False
    with assms(3,4) SettleItemSet settle_other_task(3) [of i j ok w] show ?thesis
      by (simp del: fetchItemIcons.simps)
  next
    case True
    with assms SettleItemSet show ?thesis
      by (auto simp add: itemAfterSet_publish split: item_pc.splits if_splits)
  qed
next
  case (SettleItemSleep i)
  show ?thesis
  proof (cases "i = j")
    case False
    with assms(3,4) SettleItemSleep settle_other_task(4) [of i j w] show ?thesis
      by (simp del: fetchItemIcons.simps)
  next
    case True
    with assms SettleItemSleep carriesD(1,2,3) [OF assms(1)] show ?thesis
      by (auto simp add: nextItem_carries(2) split: if_splits)
  qed
qed

lemma generator_step_of_other_call:
  assumes "carries j item v w"
    and "item_generating (fetchItemIcons act w) = item_generating w @ [item]"
  shows "\<exists>i ok. act = SettleItemGet i ok \<and> i \<noteq> j"
proof (cases act)
  case (EnterItems c)
  with assms(2) loopHead_keeps(3) show ?thesis
    by (simp split: prod.splits) (metis snd_conv self_append_conv not_Cons_self2)
next
  case (SettleItemGet i ok)
  show ?thesis
  proof (cases "i = j")
    case False
    with SettleItemGet show ?thesis by simp
  next
    case True
    note d = carriesD [OF assms(1)]
    from assms(2) SettleItemGet True d(4) have False
      by (auto simp add: itemAfterGet_def itemGenerate_def Let_def nextItem_keeps(1)
          split: item_pc.splits option.splits if_splits)
    then show ?thesis ..
  qed
next
  case (SettleItemGenerate i img)
  with assms(2) have False
    by (auto simp add: itemAfterGenerate_def Let_def nextItem_keeps(1)
        split: item_pc.splits if_splits)
  then show ?thesis ..
next
  case (SettleItemSet i ok)
  with assms(2) have False
    by (auto simp add: itemAfterSet_def Let_def nextItem_keeps(1)
        split: item_pc.splits if_splits)
  then show ?thesis ..
next
  case (SettleItemSleep i)
  with assms(2) have False
    by (auto simp add: nextItem_keeps(1) split: if_splits)
  then show ?thesis ..
qed

lemma hit_carries:
  assumes "j < length (item_tasks a)" and "it_pc (item_tasks a ! j) = ItemGet item"
    and "idb_item_icon a item = Some v" and "v \<noteq> []"
  shows "carries j item v (fetchItemIcons (SettleItemGet j True) a)"
    and "item_generating (fetchItemIcons (SettleItemGet j True) a) = item_generating a"
    and "it_pc (item_tasks (fetchItemIcons (SettleItemGet j True) a) ! j) = ItemReturned \<Longrightarrow>
         itemIcons (fetchItemIcons (SettleItemGet j True) a) item = Some v"
proof -
  let ?t = "(item_tasks a ! j)\<lparr>newIcons := (newIcons (item_tasks a ! j))(item \<mapsto> v),
                               changed := True\<rparr>"
  from assms have step: "fetchItemIcons (SettleItemGet j True) a = nextItem j ?t a"
    by (simp add: itemAfterGet_def Let_def)
  have t: "newIcons ?t item = Some v" "changed ?t"
    by simp_all
  show "carries j item v (fetchItemIcons (SettleItemGet j True) a)"
    unfolding step using assms(1) t(1) assms(4) t(2) by (rule nextItem_carries(1))
  show "item_generating (fetchItemIcons (SettleItemGet j True) a) = item_generating a"
    unfolding step by (rule nextItem_keeps(1))
  show "itemIcons (fetchItemIcons (SettleItemGet j True) a) item = Some v"
    if "it_pc (item_tasks (fetchItemIcons (SettleItemGet j True) a) ! j) = ItemReturned"
    using that unfolding step
    using assms(1) t(1) assms(4) t(2) by (simp add: nextItem_carries(2))
qed

text \<open>
  C4, as claimed: when \<open>get\<close> returns a stored value for a key, the request goes straight
  to Ready with that value. For an item icon it does not: with the icon of Milk in the
  store, \<open>fetchItemIcons\<close> takes it into the \<open>newIcons\<close> of the call and goes on to
  Yogurt, while the state \<open>itemIcons\<close>, from which the list is drawn, still has nothing
  for Milk.
\<close>

theorem cache_hit_counterexample:
  "idb_item_icon (itemSchedule [EnterItems dairy]
      (add_sheet0\<lparr>idb_item_icon := [''Milk'' \<mapsto> ''data:image/png;base64,abc'']\<rparr>)) ''Milk''
     = Some ''data:image/png;base64,abc''
   \<and> map it_pc (item_tasks (itemSchedule [EnterItems dairy]
      (add_sheet0\<lparr>idb_item_icon := [''Milk'' \<mapsto> ''data:image/png;base64,abc'']\<rparr>)))
     = [ItemGet ''Milk'']
   \<and> itemIcons (itemSchedule [EnterItems dairy, SettleItemGet 0 True]
      (add_sheet0\<lparr>idb_item_icon := [''Milk'' \<mapsto> ''data:image/png;base64,abc'']\<rparr>)) ''Milk''
     = None
   \<and> map it_pc (item_tasks (itemSchedule [EnterItems dairy, SettleItemGet 0 True]
      (add_sheet0\<lparr>idb_item_icon := [''Milk'' \<mapsto> ''data:image/png;base64,abc'']\<rparr>)))
     = [ItemGet ''Yogurt'']"
  by (simp add: itemSchedule_def add_sheet0_def dairy_def loopHead_def nextItem_def
      itemAfterGet_def present_def Let_def)

text \<open>
  C4, amended: when \<open>get\<close> returns a stored value for a key (an image payload, a non-empty
  string, or for \<open>categoryIcons\<close> the stored object), the request does not call the
  generator for that key and the stored value is the one put into the state.
  \<open>fetchImage\<close>, \<open>fetchIcons\<close> and \<open>fetchEmptyStates\<close> put it there in the same step.
  \<open>fetchItemIcons\<close> takes it into the \<open>newIcons\<close> of the call with \<open>changed\<close> set, keeps
  it there whatever runs in between, never calls the generator for that item, and puts
  it into \<open>itemIcons\<close> in the step in which the loop of the call ends.
\<close>

theorem cache_hit_short_circuit:
  "(i < length (tasks w) \<and> task_pc (tasks w ! i) = AwaitGet
      \<and> idb_onboarding_img w (task_step (tasks w ! i)) = Some v \<and> v \<noteq> [] \<longrightarrow>
        images (fetchImage (SettleGet i True) w) (task_step (tasks w ! i)) = Some v
      \<and> generating (fetchImage (SettleGet i True) w) = generating w
      \<and> task_pc (tasks (fetchImage (SettleGet i True) w) ! i) = Returned)
   \<and> categoryIcons (fetchIcons p (Fulfilled (Some saved)) setOk shown) = saved
   \<and> icon_events (fetchIcons p (Fulfilled (Some saved)) setOk shown) = []
   \<and> (idb_empty_state s sid = Some v \<and> v \<noteq> [] \<longrightarrow>
        emptyStates (emptyStateBody p True setOk sid s) sid = Some v
      \<and> empty_events (emptyStateBody p True setOk sid s) = empty_events s)
   \<and> (j < length (item_tasks a) \<and> it_pc (item_tasks a ! j) = ItemGet item
      \<and> idb_item_icon a item = Some v \<and> v \<noteq> [] \<longrightarrow>
        item_generating (fetchItemIcons (SettleItemGet j True) a) = item_generating a
      \<and> (it_pc (item_tasks (fetchItemIcons (SettleItemGet j True) a) ! j) = ItemReturned \<longrightarrow>
           itemIcons (fetchItemIcons (SettleItemGet j True) a) item = Some v)
      \<and> newIcons (item_tasks (itemSchedule as (fetchItemIcons (SettleItemGet j True) a)) ! j) item
           = Some v
      \<and> changed (item_tasks (itemSchedule as (fetchItemIcons (SettleItemGet j True) a)) ! j)
      \<and> (item_generating
            (fetchItemIcons act (itemSchedule as (fetchItemIcons (SettleItemGet j True) a)))
           = item_generating (itemSchedule as (fetchItemIcons (SettleItemGet j True) a)) @ [item]
          \<longrightarrow> (\<exists>k ok. act = SettleItemGet k ok \<and> k \<noteq> j))
      \<and> (it_pc (item_tasks (itemSchedule as (fetchItemIcons (SettleItemGet j True) a)) ! j)
             \<noteq> ItemReturned
          \<and> it_pc (item_tasks (fetchItemIcons act
               (itemSchedule as (fetchItemIcons (SettleItemGet j True) a))) ! j) = ItemReturned
          \<longrightarrow> itemIcons (fetchItemIcons act
                 (itemSchedule as (fetchItemIcons (SettleItemGet j True) a))) item = Some v))"
proof (intro conjI impI)
  assume h: "j < length (item_tasks a) \<and> it_pc (item_tasks a ! j) = ItemGet item
      \<and> idb_item_icon a item = Some v \<and> v \<noteq> []"
  let ?hit = "fetchItemIcons (SettleItemGet j True) a"
  let ?b = "itemSchedule as ?hit"
  from h have c0: "carries j item v ?hit"
    using hit_carries(1) by blast
  with h have c: "carries j item v ?b"
    using carries_schedule by blast
  from h show "item_generating ?hit = item_generating a"
    using hit_carries(2) by blast
  from c show "newIcons (item_tasks ?b ! j) item = Some v"
    by (rule carriesD(2))
  from c show "changed (item_tasks ?b ! j)"
    by (rule carriesD(3))
  {
    assume "it_pc (item_tasks ?hit ! j) = ItemReturned"
    with h show "itemIcons ?hit item = Some v"
      using hit_carries(3) by blast
  }
  {
    assume "item_generating (fetchItemIcons act ?b) = item_generating ?b @ [item]"
    with c show "\<exists>k ok. act = SettleItemGet k ok \<and> k \<noteq> j"
      by (rule generator_step_of_other_call)
  }
  {
    assume "it_pc (item_tasks ?b ! j) \<noteq> ItemReturned
          \<and> it_pc (item_tasks (fetchItemIcons act ?b) ! j) = ItemReturned"
    with c h show "itemIcons (fetchItemIcons act ?b) item = Some v"
      using publish_step by blast
  }
qed (simp_all add: afterGet_def taskReturns_def Let_def fetchIcons_def emptyStateBody_def)

theorem cache_hit_short_circuit_witness:
  "images (schedule [RunEffect 1, SettleGet 0 True]
            (onboarding0\<lparr>idb_onboarding_img := [1 \<mapsto> ''data:image/png;base64,abc'']\<rparr>)) 1
     = Some ''data:image/png;base64,abc''
   \<and> generating (schedule [RunEffect 1, SettleGet 0 True]
            (onboarding0\<lparr>idb_onboarding_img := [1 \<mapsto> ''data:image/png;base64,abc'']\<rparr>)) = []
   \<and> emptyStates (emptyStateBody serverError True True ''recipes''
        \<lparr>emptyStates = Map.empty, loadingEmptyStates = Map.empty,
         idb_empty_state = [''recipes'' \<mapsto> ''data:image/png;base64,abc''],
         empty_events = [], empty_next = 0, empty_console = []\<rparr>) ''recipes''
     = Some ''data:image/png;base64,abc''
   \<and> item_generating (itemSchedule
        [EnterItems dairy, SettleItemGet 0 True, SettleItemGet 0 False, SettleItemGet 0 False,
         SettleItemGet 0 False, SettleItemGet 0 False]
        (add_sheet0\<lparr>idb_item_icon := [''Milk'' \<mapsto> ''data:image/png;base64,abc'']\<rparr>)) = []
   \<and> map it_pc (item_tasks (itemSchedule
        [EnterItems dairy, SettleItemGet 0 True, SettleItemGet 0 False, SettleItemGet 0 False,
         SettleItemGet 0 False]
        (add_sheet0\<lparr>idb_item_icon := [''Milk'' \<mapsto> ''data:image/png;base64,abc'']\<rparr>)))
       = [ItemGet ''Eggs'']
   \<and> map it_pc (item_tasks (itemSchedule
        [EnterItems dairy, SettleItemGet 0 True, SettleItemGet 0 False, SettleItemGet 0 False,
         SettleItemGet 0 False, SettleItemGet 0 False]
        (add_sheet0\<lparr>idb_item_icon := [''Milk'' \<mapsto> ''data:image/png;base64,abc'']\<rparr>)))
       = [ItemReturned]
   \<and> itemIcons (itemSchedule
        [EnterItems dairy, SettleItemGet 0 True, SettleItemGet 0 False, SettleItemGet 0 False,
         SettleItemGet 0 False, SettleItemGet 0 False]
        (add_sheet0\<lparr>idb_item_icon := [''Milk'' \<mapsto> ''data:image/png;base64,abc'']\<rparr>)) ''Milk''
       = Some ''data:image/png;base64,abc''"
proof -
  let ?img = "''data:image/png;base64,abc''"
  let ?w = "fetchImage (RunEffect 1) (onboarding0\<lparr>idb_onboarding_img := [1 \<mapsto> ?img]\<rparr>)"
  let ?a = "fetchItemIcons (EnterItems dairy) (add_sheet0\<lparr>idb_item_icon := [''Milk'' \<mapsto> ?img]\<rparr>)"
  let ?s = "\<lparr>emptyStates = Map.empty, loadingEmptyStates = Map.empty,
         idb_empty_state = [''recipes'' \<mapsto> ?img],
         empty_events = [], empty_next = 0, empty_console = []\<rparr>"
  let ?as = "[SettleItemGet 0 False, SettleItemGet 0 False, SettleItemGet 0 False]"
  have w: "0 < length (tasks ?w)" "task_pc (tasks ?w ! 0) = AwaitGet"
    "task_step (tasks ?w ! 0) = 1" "idb_onboarding_img ?w 1 = Some ?img" "generating ?w = []"
    by (simp_all add: onboarding0_def present_def)
  have a: "0 < length (item_tasks ?a)" "it_pc (item_tasks ?a ! 0) = ItemGet ''Milk''"
    "idb_item_icon ?a ''Milk'' = Some ?img" "item_generating ?a = []"
    by (simp_all add: add_sheet0_def dairy_def loopHead_def present_def)
  have s: "idb_empty_state ?s ''recipes'' = Some ?img"
    by simp
  have ne: "?img \<noteq> []"
    by simp
  have b: "map it_pc (item_tasks (itemSchedule ?as (fetchItemIcons (SettleItemGet 0 True) ?a)))
             = [ItemGet ''Eggs'']"
    "map it_pc (item_tasks (fetchItemIcons (SettleItemGet 0 False)
        (itemSchedule ?as (fetchItemIcons (SettleItemGet 0 True) ?a)))) = [ItemReturned]"
    "item_generating (fetchItemIcons (SettleItemGet 0 False)
        (itemSchedule ?as (fetchItemIcons (SettleItemGet 0 True) ?a))) = []"
    by (simp_all add: itemSchedule_def add_sheet0_def dairy_def loopHead_def nextItem_def
        itemAfterGet_def present_def Let_def)
  have pc: "it_pc (item_tasks (itemSchedule ?as (fetchItemIcons (SettleItemGet 0 True) ?a)) ! 0)
              \<noteq> ItemReturned"
    "it_pc (item_tasks (fetchItemIcons (SettleItemGet 0 False)
        (itemSchedule ?as (fetchItemIcons (SettleItemGet 0 True) ?a))) ! 0) = ItemReturned"
    by (simp_all add: itemSchedule_def add_sheet0_def dairy_def loopHead_def nextItem_def
        itemAfterGet_def present_def Let_def)
  have published: "itemIcons (fetchItemIcons (SettleItemGet 0 False)
        (itemSchedule ?as (fetchItemIcons (SettleItemGet 0 True) ?a))) ''Milk'' = Some ?img"
    using w a s ne pc
      cache_hit_short_circuit [of 0 ?w ?img serverError Map.empty True Map.empty ?s
        "''recipes''" 0 ?a "''Milk''" ?as "SettleItemGet 0 False"]
    by blast
  have sched: "itemSchedule
        [EnterItems dairy, SettleItemGet 0 True, SettleItemGet 0 False, SettleItemGet 0 False,
         SettleItemGet 0 False, SettleItemGet 0 False]
        (add_sheet0\<lparr>idb_item_icon := [''Milk'' \<mapsto> ?img]\<rparr>)
      = fetchItemIcons (SettleItemGet 0 False)
          (itemSchedule ?as (fetchItemIcons (SettleItemGet 0 True) ?a))"
    "itemSchedule
        [EnterItems dairy, SettleItemGet 0 True, SettleItemGet 0 False, SettleItemGet 0 False,
         SettleItemGet 0 False]
        (add_sheet0\<lparr>idb_item_icon := [''Milk'' \<mapsto> ?img]\<rparr>)
      = itemSchedule ?as (fetchItemIcons (SettleItemGet 0 True) ?a)"
    by (simp_all add: itemSchedule_def)
  have first: "images (schedule [RunEffect 1, SettleGet 0 True]
            (onboarding0\<lparr>idb_onboarding_img := [1 \<mapsto> ?img]\<rparr>)) 1 = Some ?img"
    "generating (schedule [RunEffect 1, SettleGet 0 True]
            (onboarding0\<lparr>idb_onboarding_img := [1 \<mapsto> ?img]\<rparr>)) = []"
    "emptyStates (emptyStateBody serverError True True ''recipes'' ?s) ''recipes'' = Some ?img"
    using w s ne
      cache_hit_short_circuit [of 0 ?w ?img serverError Map.empty True Map.empty ?s
        "''recipes''" 0 ?a "''Milk''" ?as "SettleItemGet 0 False"]
    by (simp_all add: schedule_def)
  show ?thesis
    by (simp only: sched b published first)
qed

lemma fetchImage_set_failure_keeps_image:
  "i < length (tasks w) \<Longrightarrow> task_pc (tasks w ! i) = AwaitSet img \<Longrightarrow>
   images (fetchImage (SettleSet i False) w) = images w
   \<and> console (fetchImage (SettleSet i False) w) = console w @ [''Error fetching onboarding image:'']
   \<and> idb_onboarding_img (fetchImage (SettleSet i False) w) = idb_onboarding_img w"
  by (simp add: afterSet_def taskFinally_def Let_def)

lemma fetchImage_generated_image_shown:
  "i < length (tasks w) \<Longrightarrow> task_pc (tasks w ! i) = AwaitGenerate \<Longrightarrow> img \<noteq> [] \<Longrightarrow>
   images (fetchImage (SettleGenerate i img) w) (task_step (tasks w ! i)) = Some img
   \<and> task_pc (tasks (fetchImage (SettleGenerate i img) w) ! i) = AwaitSet img"
  by (simp add: afterGenerate_def Let_def)

lemma iconLoop_icons_shown:
  "icons s \<subseteq>\<^sub>m categoryIcons s \<Longrightarrow>
   icons (iconLoop p cats s) \<subseteq>\<^sub>m categoryIcons (iconLoop p cats s)"
proof (induction cats arbitrary: s)
  case Nil
  then show ?case by simp
next
  case (Cons cat cats)
  obtain img evs n' where g: "generateIndividualIcon p (icon_next s) 0 = (img, evs, n')"
    by (cases "generateIndividualIcon p (icon_next s) 0")
  show ?case
  proof (cases "img = []")
    case True
    with g Cons show ?thesis by simp
  next
    case False
    let ?s' = "s\<lparr>icons := (icons s)(cat_id cat \<mapsto> img),
                  categoryIcons := (categoryIcons s)(cat_id cat \<mapsto> img),
                  icon_events := icon_events s @ evs @ [Sleep 3000],
                  icon_next := n'\<rparr>"
    have "icons ?s' \<subseteq>\<^sub>m categoryIcons ?s'"
      using Cons.prems by (auto simp add: map_le_def)
    then have "icons (iconLoop p cats ?s') \<subseteq>\<^sub>m categoryIcons (iconLoop p cats ?s')"
      by (rule Cons.IH)
    with g False show ?thesis
      by simp
  qed
qed

lemma fetchIcons_set_failure_keeps_icons:
  "categoryIcons (fetchIcons p got False shown) = categoryIcons (fetchIcons p got True shown)"
  "got \<noteq> Fulfilled (Some saved) \<Longrightarrow>
   icons (fetchIcons p got False shown) \<subseteq>\<^sub>m categoryIcons (fetchIcons p got False shown)"
proof -
  show "categoryIcons (fetchIcons p got False shown) = categoryIcons (fetchIcons p got True shown)"
    by (simp add: fetchIcons_def seedIcons_def Let_def split: promise.splits option.splits)
  have "icons (iconLoop p categories s) \<subseteq>\<^sub>m categoryIcons (iconLoop p categories s)"
    if "icons s = Map.empty" for s
    using that by (intro iconLoop_icons_shown) simp
  then show "icons (fetchIcons p got False shown) \<subseteq>\<^sub>m categoryIcons (fetchIcons p got False shown)"
    by (simp add: fetchIcons_def seedIcons_def Let_def split: promise.splits option.splits)
qed

lemma generateEmptyState_set_failure_keeps_image:
  "generateOnboardingImage p (empty_next s) 0 = (img, evs, n') \<Longrightarrow> img \<noteq> [] \<Longrightarrow>
   emptyStates (generateEmptyState p False sid s) sid = Some img"
  by (simp add: generateEmptyState_def Let_def)

text \<open>
  C7. A rejected \<open>set\<close> after a successful generation is claimed to leave the generated
  value in the state for the rest of the session. \<open>fetchImage\<close>, \<open>fetchIcons\<close> and
  \<open>fetchEmptyStates\<close> update the state before they store, and do so. \<open>fetchItemIcons\<close>
  sets \<open>changed\<close> only after \<open>await set\<close>: when the store rejects every write (a full
  quota), five icons are generated for Dairy and none reaches \<open>itemIcons\<close>; entering the
  list again starts the generation for Milk again.
\<close>

theorem item_icons_lost_when_set_fails:
  "itemIcons (itemSchedule
      [EnterItems dairy,
       SettleItemGet 0 True, SettleItemGenerate 0 ''data:image/png;base64,milk'', SettleItemSet 0 False,
       SettleItemGet 0 True, SettleItemGenerate 0 ''data:image/png;base64,yogurt'', SettleItemSet 0 False,
       SettleItemGet 0 True, SettleItemGenerate 0 ''data:image/png;base64,cheese'', SettleItemSet 0 False,
       SettleItemGet 0 True, SettleItemGenerate 0 ''data:image/png;base64,butter'', SettleItemSet 0 False,
       SettleItemGet 0 True, SettleItemGenerate 0 ''data:image/png;base64,eggs'', SettleItemSet 0 False]
      add_sheet0) = Map.empty
   \<and> map it_pc (item_tasks (itemSchedule
      [EnterItems dairy,
       SettleItemGet 0 True, SettleItemGenerate 0 ''data:image/png;base64,milk'', SettleItemSet 0 False,
       SettleItemGet 0 True, SettleItemGenerate 0 ''data:image/png;base64,yogurt'', SettleItemSet 0 False,
       SettleItemGet 0 True, SettleItemGenerate 0 ''data:image/png;base64,cheese'', SettleItemSet 0 False,
       SettleItemGet 0 True, SettleItemGenerate 0 ''data:image/png;base64,butter'', SettleItemSet 0 False,
       SettleItemGet 0 True, SettleItemGenerate 0 ''data:image/png;base64,eggs'', SettleItemSet 0 False]
      add_sheet0)) = [ItemReturned]
   \<and> item_generating (itemSchedule
      [EnterItems dairy,
       SettleItemGet 0 True, SettleItemGenerate 0 ''data:image/png;base64,milk'', SettleItemSet 0 False,
       SettleItemGet 0 True, SettleItemGenerate 0 ''data:image/png;base64,yogurt'', SettleItemSet 0 False,
       SettleItemGet 0 True, SettleItemGenerate 0 ''data:image/png;base64,cheese'', SettleItemSet 0 False,
       SettleItemGet 0 True, SettleItemGenerate 0 ''data:image/png;base64,butter'', SettleItemSet 0 False,
       SettleItemGet 0 True, SettleItemGenerate 0 ''data:image/png;base64,eggs'', SettleItemSet 0 False,
       EnterItems dairy, SettleItemGet 1 True]
      add_sheet0) = [''Milk'', ''Yogurt'', ''Cheese'', ''Butter'', ''Eggs'', ''Milk'']"
  by (simp add: itemSchedule_def add_sheet0_def dairy_def loopHead_def nextItem_def
      itemAfterGet_def itemGenerate_def itemAfterGenerate_def itemAfterSet_def present_def Let_def)

lemma fetchImage_loading_guard:
  "i < length (tasks w) \<Longrightarrow> task_pc (tasks w ! i) = AwaitGet \<Longrightarrow>
   task_loadingImages (tasks w ! i) (task_step (tasks w ! i)) = Some True \<Longrightarrow>
   generating (fetchImage (SettleGet i ok) w) = generating w
   \<and> task_pc (tasks (fetchImage (SettleGet i ok) w) ! i) = Returned"
  by (simp add: afterGet_def afterMiss_def taskReturns_def Let_def split: option.splits)

lemma fetchImage_started_under_flag:
  "loadingImages w step = Some True \<Longrightarrow> \<not> present (images w step) \<Longrightarrow>
   task_loadingImages (last (tasks (fetchImage (RunEffect step) w))) step = Some True
   \<and> task_step (last (tasks (fetchImage (RunEffect step) w))) = step"
  by simp

lemma fetchImage_image_present:
  "present (images w step) \<Longrightarrow> fetchImage (RunEffect step) w = w"
  by simp

text \<open>
  C1. At most one generation per key is claimed to be in flight, whatever the number of
  concurrent requests. \<open>fetchItemIcons\<close> has no in-flight mark for an item name: while the
  first call awaits the icon of Milk, entering the item list again finds neither the
  state nor the store filled and calls the generator for Milk a second time.
  \<open>fetchImage\<close> tests the loading flag only after \<open>await get\<close>, and on the state of the
  render that created the effect: going from step 0 to step 1 and back before the first
  lookup has settled starts a second call for step 0, which calls the generator although
  the first call has set the flag by then. A call of \<open>fetchImage\<close> started once the flag
  is set, or once the image is present, does not call it (the lemmas above).
\<close>

theorem duplicate_generation_in_flight:
  "item_generating (itemSchedule
      [EnterItems dairy, SettleItemGet 0 True, EnterItems dairy, SettleItemGet 1 True]
      add_sheet0) = [''Milk'', ''Milk'']
   \<and> map it_pc (item_tasks (itemSchedule
      [EnterItems dairy, SettleItemGet 0 True, EnterItems dairy, SettleItemGet 1 True]
      add_sheet0)) = [ItemGenerate ''Milk'', ItemGenerate ''Milk'']
   \<and> loadingImages (schedule [RunEffect 0, RunEffect 1, RunEffect 0, SettleGet 0 True]
        onboarding0) 0 = Some True
   \<and> generating (schedule [RunEffect 0, RunEffect 1, RunEffect 0, SettleGet 0 True]
        onboarding0) = [0]
   \<and> generating (schedule
        [RunEffect 0, RunEffect 1, RunEffect 0, SettleGet 0 True, SettleGet 2 True]
        onboarding0) = [0, 0]
   \<and> map task_pc (tasks (schedule
        [RunEffect 0, RunEffect 1, RunEffect 0, SettleGet 0 True, SettleGet 2 True]
        onboarding0)) = [AwaitGenerate, AwaitGet, AwaitGenerate]"
  by (simp add: itemSchedule_def add_sheet0_def dairy_def loopHead_def nextItem_def
      itemAfterGet_def itemGenerate_def present_def Let_def
      schedule_def onboarding0_def afterGet_def afterMiss_def)

subsection \<open>Spacing of provider calls\<close>

lemma dispatchTimes_append:
  "dispatchTimes t (xs @ ys) = dispatchTimes t xs @ dispatchTimes (t + elapsed xs) ys"
proof (induction xs arbitrary: t)
  case Nil
  then show ?case by simp
next
  case (Cons e xs)
  then show ?case
    by (cases e) (simp_all add: add.assoc)
qed

lemma dispatchTimes_bounds:
  "a \<in> set (dispatchTimes t xs) \<Longrightarrow> t \<le> a \<and> a \<le> t + elapsed xs"
proof (induction xs arbitrary: t)
  case Nil
  then show ?case by simp
next
  case (Cons e xs)
  show ?case
  proof (cases e)
    case (ProviderCall d)
    with Cons.prems have "a = t \<or> a \<in> set (dispatchTimes (t + d) xs)"
      by simp
    then show ?thesis
    proof
      assume "a = t"
      then show ?thesis by simp
    next
      assume "a \<in> set (dispatchTimes (t + d) xs)"
      then have "t + d \<le> a \<and> a \<le> t + d + elapsed xs"
        by (rule Cons.IH)
      with ProviderCall show ?thesis by simp
    qed
  next
    case (Sleep d)
    with Cons.prems have "a \<in> set (dispatchTimes (t + d) xs)"
      by simp
    then have "t + d \<le> a \<and> a \<le> t + d + elapsed xs"
      by (rule Cons.IH)
    with Sleep show ?thesis by simp
  qed
qed

lemma iconLoop_events_extend:
  "\<exists>more. icon_events (iconLoop p cats s) = icon_events s @ more"
proof (induction cats arbitrary: s)
  case Nil
  then show ?case by simp
next
  case (Cons cat cats)
  obtain img evs n' where g: "generateIndividualIcon p (icon_next s) 0 = (img, evs, n')"
    by (cases "generateIndividualIcon p (icon_next s) 0")
  show ?case
  proof (cases "img = []")
    case True
    let ?s' = "s\<lparr>icon_events := icon_events s @ evs, icon_next := n'\<rparr>"
    obtain more where "icon_events (iconLoop p cats ?s') = icon_events ?s' @ more"
      using Cons.IH by blast
    with g True show ?thesis by simp
  next
    case False
    let ?s' = "s\<lparr>icons := (icons s)(cat_id cat \<mapsto> img),
                  categoryIcons := (categoryIcons s)(cat_id cat \<mapsto> img),
                  icon_events := icon_events s @ evs @ [Sleep 3000],
                  icon_next := n'\<rparr>"
    obtain more where "icon_events (iconLoop p cats ?s') = icon_events ?s' @ more"
      using Cons.IH by blast
    with g False show ?thesis by simp
  qed
qed

text \<open>
  C3, as claimed: all provider calls pass one global queue that keeps them a minimum
  spacing apart. There is no such queue. In \<open>fetchIcons\<close>, whose delay is 3000 ms, a
  provider that rejects each call after 200 ms with code 500 is called five times 200 ms
  apart. \<open>fetchEmptyStates\<close> has no delay: its second call is made the moment the first
  resolves. And the two loops, both started at mount (time 0, storage lookups taken as
  instantaneous), make their first calls at the same instant.
\<close>

theorem global_spacing_counterexample:
  "dispatchTimes 0 (icon_events (fetchIcons serverError (Fulfilled None) True Map.empty))
     = [0, 200, 400, 600, 800]
   \<and> dispatchTimes 0
       (empty_events (fetchEmptyStates (imageAfter 4000) (\<lambda>sid. True) (\<lambda>sid. True) Map.empty))
     = [0, 4000]
   \<and> dispatchTimes 0 (icon_events (fetchIcons (imageAfter 4000) (Fulfilled None) True Map.empty))
     = [0, 7000, 14000, 21000, 28000]"
proof -
  have e: "\<And>n r. generateIndividualIcon serverError n r = ('''', [ProviderCall 200], Suc n)"
    by (simp add: icon_gives_up imageOf_def rateLimited_def serverError_def)
  have i: "\<And>n r. generateIndividualIcon (imageAfter 4000) n r
             = (''data:image/png;base64,abc'', [ProviderCall 4000], Suc n)"
    by (simp add: icon_resolves imageOf_def inlineImage_def imageAfter_def)
  have o: "\<And>n r. generateOnboardingImage (imageAfter 4000) n r
             = (''data:image/png;base64,abc'', [ProviderCall 4000], Suc n)"
    by (simp add: onboarding_resolves imageOf_def inlineImage_def imageAfter_def)
  have "dispatchTimes 0 (icon_events (fetchIcons serverError (Fulfilled None) True Map.empty))
     = [0, 200, 400, 600, 800]"
    by (simp add: fetchIcons_def seedIcons_def categories_def e)
  moreover have "dispatchTimes 0
       (empty_events (fetchEmptyStates (imageAfter 4000) (\<lambda>sid. True) (\<lambda>sid. True) Map.empty))
     = [0, 4000]"
    by (simp add: fetchEmptyStates_def emptyStateBody_def generateEmptyState_def o Let_def)
  moreover have "dispatchTimes 0
       (icon_events (fetchIcons (imageAfter 4000) (Fulfilled None) True Map.empty))
     = [0, 7000, 14000, 21000, 28000]"
    by (simp add: fetchIcons_def seedIcons_def categories_def i)
  ultimately show ?thesis by simp
qed

text \<open>
  C3, amended: within one run of \<open>fetchIcons\<close>, once the generation for a category has
  returned an icon, every provider call made afterwards in that run is dispatched at
  least 3000 ms after every provider call made up to then.
\<close>

theorem icon_spacing_after_success:
  assumes "generateIndividualIcon p (icon_next s) 0 = (img, evs, n')" and "img \<noteq> []"
  shows "\<exists>later.
           dispatchTimes t (icon_events (iconLoop p (cat # cats) s))
             = dispatchTimes t (icon_events s @ evs) @ later
         \<and> (\<forall>a \<in> set (dispatchTimes t (icon_events s @ evs)). \<forall>b \<in> set later. a + 3000 \<le> b)"
proof -
  let ?s' = "s\<lparr>icons := (icons s)(cat_id cat \<mapsto> img),
                categoryIcons := (categoryIcons s)(cat_id cat \<mapsto> img),
                icon_events := icon_events s @ evs @ [Sleep 3000],
                icon_next := n'\<rparr>"
  let ?done = "icon_events s @ evs"
  obtain more where "icon_events (iconLoop p cats ?s') = icon_events ?s' @ more"
    using iconLoop_events_extend by blast
  with assms have ev: "icon_events (iconLoop p (cat # cats) s) = ?done @ Sleep 3000 # more"
    by simp
  let ?later = "dispatchTimes (t + elapsed ?done + 3000) more"
  have "dispatchTimes t (icon_events (iconLoop p (cat # cats) s))
          = dispatchTimes t ?done @ ?later"
    by (simp only: ev dispatchTimes_append) simp
  moreover have "a + 3000 \<le> b"
    if "a \<in> set (dispatchTimes t ?done)" and "b \<in> set ?later" for a b
  proof -
    from that(1) have "a \<le> t + elapsed ?done"
      using dispatchTimes_bounds by blast
    moreover from that(2) have "t + elapsed ?done + 3000 \<le> b"
      using dispatchTimes_bounds by blast
    ultimately show ?thesis by simp
  qed
  ultimately show ?thesis by blast
qed

theorem icon_spacing_after_success_witness:
  "generateIndividualIcon (imageAfter 4000) 0 0
     = (''data:image/png;base64,abc'', [ProviderCall 4000], 1)
   \<and> ''data:image/png;base64,abc'' \<noteq> []
   \<and> (\<exists>later.
         dispatchTimes 0 (icon_events (iconLoop (imageAfter 4000) categories
           \<lparr>categoryIcons = Map.empty, icons = Map.empty, savedIcons = None,
            icon_events = [], icon_next = 0, icon_console = []\<rparr>)) = 0 # later
       \<and> (\<forall>b \<in> set later. 3000 \<le> b))"
proof -
  let ?s = "\<lparr>categoryIcons = Map.empty, icons = Map.empty, savedIcons = None,
             icon_events = [], icon_next = 0, icon_console = []\<rparr>"
  have g: "generateIndividualIcon (imageAfter 4000) (icon_next ?s) 0
             = (''data:image/png;base64,abc'', [ProviderCall 4000], 1)"
    by (simp add: icon_resolves imageOf_def inlineImage_def imageAfter_def)
  have ne: "''data:image/png;base64,abc'' \<noteq> []"
    by simp
  have c: "hd categories # tl categories = categories"
    by (simp add: categories_def)
  have "\<exists>later.
         dispatchTimes 0 (icon_events (iconLoop (imageAfter 4000) categories ?s)) = 0 # later
       \<and> (\<forall>b \<in> set later. 3000 \<le> b)"
    using icon_spacing_after_success [OF g ne, of 0 "hd categories" "tl categories"]
    by (simp only: c) simp
  with g show ?thesis
    by simp
qed

end
